theory Spec2Isabelle
  imports Complex_Main
begin

section \<open>Go values used by the WCS parser\<close>

subsection \<open>float64\<close>

text \<open>
  A Go \<^verbatim>\<open>float64\<close> is an IEEE-754 binary64 value: a NaN, an infinity of either sign,
  a zero of either sign, or a finite non-zero number. \<open>Fin 0\<close> is the positive zero and
  \<open>NZero\<close> the negative one. Every arithmetic operation rounds its exact result to the
  nearest binary64 value, ties to even (\<open>round64\<close>), one operation at a time: a product
  and the sum it enters are rounded separately, as on a target without fused
  multiply-add.
\<close>

datatype float64 = NaN | PInf | NInf | NZero | Fin real

fun isNaN :: "float64 \<Rightarrow> bool" where
  "isNaN NaN = True"
| "isNaN _ = False"

fun isInf :: "float64 \<Rightarrow> bool" where
  "isInf PInf = True"
| "isInf NInf = True"
| "isInf _ = False"

fun fval :: "float64 \<Rightarrow> real" where
  "fval (Fin x) = x"
| "fval _ = 0"

fun signbit :: "float64 \<Rightarrow> bool" where
  "signbit NInf = True"
| "signbit NZero = True"
| "signbit (Fin x) = (x < 0)"
| "signbit _ = False"

definition isFinite :: "float64 \<Rightarrow> bool" where
  "isFinite a = (\<not> isNaN a \<and> \<not> isInf a)"

definition isZero :: "float64 \<Rightarrow> bool" where
  "isZero a = (isFinite a \<and> fval a = 0)"

definition mkzero :: "bool \<Rightarrow> float64" where
  "mkzero s = (if s then NZero else Fin 0)"

definition mkinf :: "bool \<Rightarrow> float64" where
  "mkinf s = (if s then NInf else PInf)"

text \<open>Round to the nearest integer, a tie going to the even neighbour.\<close>

definition rne :: "real \<Rightarrow> int" where
  "rne r = (let f = \<lfloor>r\<rfloor>; d = r - of_int f in
     if d < 1 / 2 then f
     else if 1 / 2 < d then f + 1
     else if even f then f else f + 1)"

text \<open>
  Rounding of an exact real result to binary64: 53 significant bits, the exponent of the
  least normal number as the floor (subnormals below it), overflow to an infinity, and a
  result that rounds to zero keeps the sign of the exact value.
\<close>

definition round64 :: "real \<Rightarrow> float64" where
  "round64 x = (if x = 0 then Fin 0 else
     let e = max \<lfloor>log 2 \<bar>x\<bar>\<rfloor> (- 1022);
         q = 2 powi (e - 52);
         y = of_int (rne (x / q)) * q
     in if 2 powi 1024 \<le> \<bar>y\<bar> then mkinf (x < 0)
        else if y = 0 then mkzero (x < 0)
        else Fin y)"

text \<open>Comparison: every comparison with a NaN is false, except \<open>!=\<close>; the two zeros are equal.\<close>

definition flt :: "float64 \<Rightarrow> float64 \<Rightarrow> bool" where
  "flt a b = (\<not> isNaN a \<and> \<not> isNaN b \<and>
     (a = NInf \<and> b \<noteq> NInf \<or> b = PInf \<and> a \<noteq> PInf \<or>
      isFinite a \<and> isFinite b \<and> fval a < fval b))"

definition feq :: "float64 \<Rightarrow> float64 \<Rightarrow> bool" where
  "feq a b = (\<not> isNaN a \<and> \<not> isNaN b \<and>
     (a = PInf \<and> b = PInf \<or> a = NInf \<and> b = NInf \<or>
      isFinite a \<and> isFinite b \<and> fval a = fval b))"

definition fgt :: "float64 \<Rightarrow> float64 \<Rightarrow> bool" where
  "fgt a b = flt b a"

definition fge :: "float64 \<Rightarrow> float64 \<Rightarrow> bool" where
  "fge a b = (flt b a \<or> feq a b)"

definition fne :: "float64 \<Rightarrow> float64 \<Rightarrow> bool" where
  "fne a b = (\<not> feq a b)"

text \<open>Arithmetic, with the special cases of IEEE 754.\<close>

fun fneg :: "float64 \<Rightarrow> float64" where
  "fneg NaN = NaN"
| "fneg PInf = NInf"
| "fneg NInf = PInf"
| "fneg NZero = Fin 0"
| "fneg (Fin x) = (if x = 0 then NZero else Fin (- x))"

definition fadd :: "float64 \<Rightarrow> float64 \<Rightarrow> float64" where
  "fadd a b =
     (if isNaN a \<or> isNaN b then NaN
      else if isInf a then (if isInf b \<and> a \<noteq> b then NaN else a)
      else if isInf b then b
      else if isZero a \<and> isZero b then mkzero (signbit a \<and> signbit b)
      else if isZero a then b
      else if isZero b then a
      else round64 (fval a + fval b))"

definition fsub :: "float64 \<Rightarrow> float64 \<Rightarrow> float64" where
  "fsub a b = fadd a (fneg b)"

definition fmul :: "float64 \<Rightarrow> float64 \<Rightarrow> float64" where
  "fmul a b =
     (if isNaN a \<or> isNaN b then NaN
      else if isInf a \<or> isInf b then
        (if isZero a \<or> isZero b then NaN else mkinf (signbit a \<noteq> signbit b))
      else if isZero a \<or> isZero b then mkzero (signbit a \<noteq> signbit b)
      else round64 (fval a * fval b))"

definition fdiv :: "float64 \<Rightarrow> float64 \<Rightarrow> float64" where
  "fdiv a b =
     (if isNaN a \<or> isNaN b then NaN
      else if isInf a then (if isInf b then NaN else mkinf (signbit a \<noteq> signbit b))
      else if isInf b then mkzero (signbit a \<noteq> signbit b)
      else if isZero b then (if isZero a then NaN else mkinf (signbit a \<noteq> signbit b))
      else if isZero a then mkzero (signbit a \<noteq> signbit b)
      else round64 (fval a / fval b))"

text \<open>\<^verbatim>\<open>math.Sqrt\<close>: correctly rounded; the root of a negative number is a NaN.\<close>

fun fsqrt :: "float64 \<Rightarrow> float64" where
  "fsqrt NaN = NaN"
| "fsqrt PInf = PInf"
| "fsqrt NInf = NaN"
| "fsqrt NZero = NZero"
| "fsqrt (Fin x) = (if x < 0 then NaN else round64 (sqrt x))"

text \<open>\<^verbatim>\<open>math.Pi\<close> converted to float64: the binary64 value nearest to \<open>\<pi>\<close>.\<close>

definition Pi64 :: float64 where
  "Pi64 = Fin (884279719003555 / 281474976710656)"

subsection \<open>Strings\<close>

text \<open>
  A Go string is a sequence of bytes. The functions of package \<^verbatim>\<open>strings\<close> that the
  reader calls, on the arguments it calls them with.
\<close>

definition HasPrefix :: "string \<Rightarrow> string \<Rightarrow> bool" where
  "HasPrefix s prefix = (take (length prefix) s = prefix)"

text \<open>\<^verbatim>\<open>strings.SplitN(s, sep, 2)\<close> for a one-byte separator: one part when the
  separator does not occur, else the text before its first occurrence and the text after it.\<close>

definition SplitN2 :: "string \<Rightarrow> char \<Rightarrow> string list" where
  "SplitN2 s sep =
     (if sep \<in> set s
      then [takeWhile (\<lambda>c. c \<noteq> sep) s, tl (dropWhile (\<lambda>c. c \<noteq> sep) s)]
      else [s])"

text \<open>\<^verbatim>\<open>strings.Index\<close> for a one-byte substring: the first position, or -1.\<close>

definition Index :: "string \<Rightarrow> char \<Rightarrow> int" where
  "Index s sub = (if sub \<in> set s then int (length (takeWhile (\<lambda>c. c \<noteq> sub) s)) else - 1)"

text \<open>\<^verbatim>\<open>strings.Trim(s, cutset)\<close> for a cutset of one ASCII byte.\<close>

definition Trim :: "string \<Rightarrow> char \<Rightarrow> string" where
  "Trim s c = dropWhile (\<lambda>x. x = c) (rev (dropWhile (\<lambda>x. x = c) (rev s)))"

text \<open>
  \<^verbatim>\<open>strings.TrimSpace\<close> removes the leading and the trailing white space, as
  \<^verbatim>\<open>unicode.IsSpace\<close> defines it, from the UTF-8 text: the six ASCII space bytes and
  the encodings of U+0085, U+00A0, U+1680, U+2000 to U+200A, U+2028, U+2029, U+202F,
  U+205F and U+3000. A byte that starts no valid encoding is not white space.
\<close>

definition spaceRunes :: "string list" where
  "spaceRunes =
    [[CHR 0x09], [CHR 0x0A], [CHR 0x0B], [CHR 0x0C], [CHR 0x0D], [CHR 0x20],
     [CHR 0xC2, CHR 0x85], [CHR 0xC2, CHR 0xA0], [CHR 0xE1, CHR 0x9A, CHR 0x80],
     [CHR 0xE2, CHR 0x80, CHR 0x80], [CHR 0xE2, CHR 0x80, CHR 0x81],
     [CHR 0xE2, CHR 0x80, CHR 0x82], [CHR 0xE2, CHR 0x80, CHR 0x83],
     [CHR 0xE2, CHR 0x80, CHR 0x84], [CHR 0xE2, CHR 0x80, CHR 0x85],
     [CHR 0xE2, CHR 0x80, CHR 0x86], [CHR 0xE2, CHR 0x80, CHR 0x87],
     [CHR 0xE2, CHR 0x80, CHR 0x88], [CHR 0xE2, CHR 0x80, CHR 0x89],
     [CHR 0xE2, CHR 0x80, CHR 0x8A], [CHR 0xE2, CHR 0x80, CHR 0xA8],
     [CHR 0xE2, CHR 0x80, CHR 0xA9], [CHR 0xE2, CHR 0x80, CHR 0xAF],
     [CHR 0xE2, CHR 0x81, CHR 0x9F], [CHR 0xE3, CHR 0x80, CHR 0x80]]"

text \<open>The width of the first of the given byte sequences that the string starts with;
  0 when it starts with none of them.\<close>

definition runeWidth :: "string list \<Rightarrow> string \<Rightarrow> nat" where
  "runeWidth rs s =
     (case find (\<lambda>r. r \<noteq> [] \<and> take (length r) s = r) rs of
        None \<Rightarrow> 0
      | Some r \<Rightarrow> length r)"

function stripRunes :: "string list \<Rightarrow> string \<Rightarrow> string" where
  "stripRunes rs s =
     (if runeWidth rs s = 0 then s else stripRunes rs (drop (runeWidth rs s) s))"
  by pat_completeness auto
termination
proof (relation "measure (\<lambda>(rs, s). length s)")
  show "wf (measure (\<lambda>(rs, s). length s))" by simp
next
  fix rs :: "string list" and s :: string
  assume w: "runeWidth rs s \<noteq> 0"
  then obtain r where "r \<noteq> []" "take (length r) s = r"
    by (auto simp: runeWidth_def split: option.splits dest: find_Some_iff [THEN iffD1])
  then have "s \<noteq> []" by auto
  then show "((rs, drop (runeWidth rs s) s), (rs, s)) \<in> measure (\<lambda>(rs, s). length s)"
    using w by simp
qed

declare stripRunes.simps [simp del]

definition TrimLeftSpace :: "string \<Rightarrow> string" where
  "TrimLeftSpace s = stripRunes spaceRunes s"

definition TrimRightSpace :: "string \<Rightarrow> string" where
  "TrimRightSpace s = rev (stripRunes (map rev spaceRunes) (rev s))"

definition TrimSpace :: "string \<Rightarrow> string" where
  "TrimSpace s = TrimRightSpace (TrimLeftSpace s)"

subsection \<open>Errors\<close>

text \<open>
  The package's sentinel errors, the \<^verbatim>\<open>*fs.PathError\<close> that \<^verbatim>\<open>os.Open\<close> returns
  (operation, path, errno), and an error that \<^verbatim>\<open>fmt.Errorf\<close> builds around another
  one with \<^verbatim>\<open>%w\<close> (its format string, the wrapped error).
\<close>

datatype error =
    ErrNoSolution
  | ErrTimeout
  | ErrDockerFailed
  | ErrInvalidInput
  | ErrWCSParseFailed
  | PathError string string nat
  | Errorf string error

text \<open>\<^verbatim>\<open>errors.Is\<close>: the error or one it wraps is the target.\<close>

fun errors_Is :: "error \<Rightarrow> error \<Rightarrow> bool" where
  "errors_Is (Errorf msg err) target = (Errorf msg err = target \<or> errors_Is err target)"
| "errors_Is err target = (err = target)"

subsection \<open>The file system and the library\<close>

text \<open>
  A path either cannot be opened (with an errno) or names a file with its bytes. A read
  into an 80-byte buffer returns the next 80 bytes, or fewer at the end of the file.
\<close>

type_synonym filesystem = "string \<Rightarrow> nat + string"

definition os_Open :: "filesystem \<Rightarrow> string \<Rightarrow> error + string" where
  "os_Open fs name =
     (case fs name of
        Inl errno \<Rightarrow> Inl (PathError ''open'' name errno)
      | Inr bytes \<Rightarrow> Inr bytes)"

text \<open>
  The two functions of Go's standard library whose results the parser computes with are
  parameters of the model: \<^verbatim>\<open>strconv.ParseFloat(s, 64)\<close>, \<open>None\<close> when it returns an
  error, and \<^verbatim>\<open>math.Atan2\<close>.
\<close>

record golib =
  ParseFloat :: "string \<Rightarrow> float64 option"
  Atan2 :: "float64 \<Rightarrow> float64 \<Rightarrow> float64"

section \<open>The WCS parser (internal/solver/result.go)\<close>

record Result =
  Solved :: bool
  RA :: float64
  Dec :: float64
  PixelScale :: float64
  Rotation :: float64
  FieldWidth :: float64
  FieldHeight :: float64
  WCSHeader :: "string \<rightharpoonup> string"
  OutputFiles :: "string list"
  SolveTime :: float64
  RawOutput :: string

text \<open>\<^verbatim>\<open>abs\<close> (lines 281 to 287).\<close>

definition abs64 :: "float64 \<Rightarrow> float64" where
  "abs64 x = (if flt x (Fin 0) then fneg x else x)"

subsection \<open>Reading the records (lines 82 to 121)\<close>

text \<open>The body of the loop for one 80-byte record: \<open>None\<close> is \<^verbatim>\<open>continue\<close>,
  \<open>Some (key, value)\<close> is the pair stored in the map.\<close>

definition parseLine :: "string \<Rightarrow> (string \<times> string) option" where
  "parseLine line =
     (if length line = 0 \<or> HasPrefix line ''END'' then None
      else
        let parts = SplitN2 line (CHR ''='') in
        if length parts \<noteq> 2 then None
        else
          let key = TrimSpace (parts ! 0);
              valuePart = TrimSpace (parts ! 1);
              idx = Index valuePart (CHR ''/'');
              valuePart1 = (if idx \<noteq> - 1 then take (nat idx) valuePart else valuePart);
              valuePart2 = TrimSpace valuePart1;
              valuePart3 = Trim valuePart2 (CHR 0x27);
              valuePart4 = TrimSpace valuePart3
          in Some (key, valuePart4))"

text \<open>The loop: it stops at the first read that does not fill the buffer.\<close>

function readRecords :: "string \<Rightarrow> (string \<rightharpoonup> string) \<Rightarrow> (string \<rightharpoonup> string)" where
  "readRecords file hdr =
     (if length (take 80 file) \<noteq> 80 then hdr
      else
        (case parseLine (take 80 file) of
           None \<Rightarrow> readRecords (drop 80 file) hdr
         | Some (key, valuePart) \<Rightarrow> readRecords (drop 80 file) (hdr(key \<mapsto> valuePart))))"
  by pat_completeness auto
termination
  by (relation "measure (\<lambda>(file, hdr). length file)") (auto simp: min_def split: if_splits)

declare readRecords.simps [simp del]

subsection \<open>Extracting the parameters (lines 123 to 190)\<close>

record TransformParameters =
  crval1 :: float64
  crval2 :: float64
  crpix1 :: float64
  crpix2 :: float64
  cd11 :: float64
  cd12 :: float64
  cd21 :: float64
  cd22 :: float64
  imageW :: float64
  imageH :: float64
  hasWCS :: bool

text \<open>A key that is present and whose value parses: the one pattern of every extraction.\<close>

definition getFloat :: "golib \<Rightarrow> (string \<rightharpoonup> string) \<Rightarrow> string \<Rightarrow> float64 option" where
  "getFloat L hdr key = (case hdr key of None \<Rightarrow> None | Some val \<Rightarrow> ParseFloat L val)"

definition floatOrZero :: "float64 option \<Rightarrow> float64" where
  "floatOrZero v = (case v of None \<Rightarrow> Fin 0 | Some x \<Rightarrow> x)"

definition extractParams :: "golib \<Rightarrow> (string \<rightharpoonup> string) \<Rightarrow> TransformParameters" where
  "extractParams L hdr =
     \<lparr>crval1 = floatOrZero (getFloat L hdr ''CRVAL1''),
      crval2 = floatOrZero (getFloat L hdr ''CRVAL2''),
      crpix1 = floatOrZero (getFloat L hdr ''CRPIX1''),
      crpix2 = floatOrZero (getFloat L hdr ''CRPIX2''),
      cd11 = floatOrZero (getFloat L hdr ''CD1_1''),
      cd12 = floatOrZero (getFloat L hdr ''CD1_2''),
      cd21 = floatOrZero (getFloat L hdr ''CD2_1''),
      cd22 = floatOrZero (getFloat L hdr ''CD2_2''),
      imageW = (case hdr ''IMAGEW'' of
                  Some val \<Rightarrow> floatOrZero (ParseFloat L val)
                | None \<Rightarrow> floatOrZero (getFloat L hdr ''NAXIS1'')),
      imageH = (case hdr ''IMAGEH'' of
                  Some val \<Rightarrow> floatOrZero (ParseFloat L val)
                | None \<Rightarrow> floatOrZero (getFloat L hdr ''NAXIS2'')),
      hasWCS = (getFloat L hdr ''CRVAL1'' \<noteq> None)\<rparr>"

subsection \<open>The field centre, the scale and the rotation (lines 192 to 246)\<close>

text \<open>The two normalisation loops (lines 224 to 229). In float64 arithmetic such a loop
  need not end (an infinity stays what it is), so the result is an option.\<close>

partial_function (option) normalizeLow :: "float64 \<Rightarrow> float64 option" where
  "normalizeLow r = (if flt r (Fin 0) then normalizeLow (fadd r (Fin 360)) else Some r)"

partial_function (option) normalizeHigh :: "float64 \<Rightarrow> float64 option" where
  "normalizeHigh r = (if fge r (Fin 360) then normalizeHigh (fsub r (Fin 360)) else Some r)"

definition usePrimary :: "TransformParameters \<Rightarrow> bool" where
  "usePrimary p = (hasWCS p \<and> fgt (imageW p) (Fin 0) \<and> fgt (imageH p) (Fin 0))"

definition primaryPath :: "golib \<Rightarrow> TransformParameters \<Rightarrow> Result \<Rightarrow> Result option" where
  "primaryPath L p result =
     (let centerX = fdiv (imageW p) (Fin 2);
          centerY = fdiv (imageH p) (Fin 2);
          dx = fsub centerX (crpix1 p);
          dy = fsub centerY (crpix2 p);
          dRA = fadd (fmul (cd11 p) dx) (fmul (cd12 p) dy);
          dDec = fadd (fmul (cd21 p) dx) (fmul (cd22 p) dy);
          pixelScaleDeg = fsqrt (fadd (fmul (cd11 p) (cd11 p)) (fmul (cd21 p) (cd21 p)));
          rotationRad = Atan2 L (cd12 p) (cd11 p);
          rotation = fsub (Fin 180) (fdiv (fmul rotationRad (Fin 180)) Pi64)
      in case normalizeLow rotation of
           None \<Rightarrow> None
         | Some rotation1 \<Rightarrow>
             (case normalizeHigh rotation1 of
                None \<Rightarrow> None
              | Some rotation2 \<Rightarrow>
                  Some (result\<lparr>RA := fadd (crval1 p) dRA,
                               Dec := fadd (crval2 p) dDec,
                               PixelScale := fmul pixelScaleDeg (Fin 3600),
                               Rotation := rotation2\<rparr>)))"

definition fallbackPath :: "golib \<Rightarrow> TransformParameters \<Rightarrow> Result \<Rightarrow> Result" where
  "fallbackPath L p result =
     (let result1 = result\<lparr>RA := crval1 p, Dec := crval2 p\<rparr>;
          result2 = (if fne (cd11 p) (Fin 0)
                     then result1\<lparr>PixelScale := fmul (abs64 (cd11 p)) (Fin 3600)\<rparr>
                     else result1)
      in case getFloat L (WCSHeader result) ''CROTA2'' of
           Some v \<Rightarrow> result2\<lparr>Rotation := v\<rparr>
         | None \<Rightarrow> result2)"

definition transform :: "golib \<Rightarrow> TransformParameters \<Rightarrow> Result \<Rightarrow> Result option" where
  "transform L p result =
     (if usePrimary p then primaryPath L p result else Some (fallbackPath L p result))"

subsection \<open>The field dimensions (lines 248 to 271)\<close>

definition fieldDimensions :: "golib \<Rightarrow> Result \<Rightarrow> Result" where
  "fieldDimensions L result =
     (let hdr = WCSHeader result;
          result1 = (case getFloat L hdr ''IMAGEW'' of
                       Some w \<Rightarrow>
                         if fgt (PixelScale result) (Fin 0)
                         then result\<lparr>FieldWidth := fdiv (fmul w (PixelScale result)) (Fin 3600)\<rparr>
                         else result
                     | None \<Rightarrow> result);
          result2 = (case getFloat L hdr ''IMAGEH'' of
                       Some h \<Rightarrow>
                         if fgt (PixelScale result1) (Fin 0)
                         then result1\<lparr>FieldHeight := fdiv (fmul h (PixelScale result1)) (Fin 3600)\<rparr>
                         else result1
                     | None \<Rightarrow> result1);
          result3 = (case getFloat L hdr ''NAXIS1'' of
                       Some w \<Rightarrow>
                         if fgt (PixelScale result2) (Fin 0)
                         then result2\<lparr>FieldWidth := fdiv (fmul w (PixelScale result2)) (Fin 3600)\<rparr>
                         else result2
                     | None \<Rightarrow> result2);
          result4 = (case getFloat L hdr ''NAXIS2'' of
                       Some h \<Rightarrow>
                         if fgt (PixelScale result3) (Fin 0)
                         then result3\<lparr>FieldHeight := fdiv (fmul h (PixelScale result3)) (Fin 3600)\<rparr>
                         else result3
                     | None \<Rightarrow> result3)
      in result4)"

subsection \<open>The final check and the whole function (lines 68 to 80 and 273 to 278)\<close>

definition allZero :: "Result \<Rightarrow> bool" where
  "allZero result =
     (feq (RA result) (Fin 0) \<and> feq (Dec result) (Fin 0) \<and> feq (PixelScale result) (Fin 0))"

definition validate :: "Result \<Rightarrow> error + Result" where
  "validate result =
     (if allZero result
      then Inl (Errorf ''%w: no valid WCS fields found'' ErrWCSParseFailed)
      else Inr result)"

definition newResult :: Result where
  "newResult =
     \<lparr>Solved = True, RA = Fin 0, Dec = Fin 0, PixelScale = Fin 0, Rotation = Fin 0,
      FieldWidth = Fin 0, FieldHeight = Fin 0, WCSHeader = Map.empty, OutputFiles = [],
      SolveTime = Fin 0, RawOutput = []\<rparr>"

text \<open>Everything between the end of the reading loop and the final check: the fields of
  the result, computed from the header map.\<close>

definition computeFields :: "golib \<Rightarrow> (string \<rightharpoonup> string) \<Rightarrow> Result option" where
  "computeFields L hdr =
     (case transform L (extractParams L hdr) (newResult\<lparr>WCSHeader := hdr\<rparr>) of
        None \<Rightarrow> None
      | Some result \<Rightarrow> Some (fieldDimensions L result))"

text \<open>\<^verbatim>\<open>ParseWCSFile\<close>: \<open>None\<close> when a normalisation loop does not end, else what the
  function returns, the error or the result.\<close>

definition ParseWCSFile :: "golib \<Rightarrow> filesystem \<Rightarrow> string \<Rightarrow> (error + Result) option" where
  "ParseWCSFile L fs wcsPath =
     (case os_Open fs wcsPath of
        Inl err \<Rightarrow> Some (Inl (Errorf ''failed to open WCS file: %w'' err))
      | Inr file \<Rightarrow>
          (case computeFields L (readRecords file (WCSHeader newResult)) of
             None \<Rightarrow> None
           | Some result \<Rightarrow> Some (validate result)))"

section \<open>The metadata reader as the specification words it\<close>

text \<open>
  Section 4.1 of the specification, sentence by sentence, for comparison with the loop of
  the source: the full records, the key and the value of a record, the records that are
  skipped, and the map in which a later record with the same key wins.
\<close>

function records80 :: "string \<Rightarrow> string list" where
  "records80 bytes =
     (if length bytes < 80 then [] else take 80 bytes # records80 (drop 80 bytes))"
  by pat_completeness auto
termination
  by (relation "measure length") auto

declare records80.simps [simp del]

definition spec_key :: "string \<Rightarrow> string" where
  "spec_key record = TrimSpace (takeWhile (\<lambda>c. c \<noteq> CHR ''='') record)"

definition spec_value :: "string \<Rightarrow> string" where
  "spec_value record =
     (let after = tl (dropWhile (\<lambda>c. c \<noteq> CHR ''='') record);
          uncommented = takeWhile (\<lambda>c. c \<noteq> CHR ''/'') after
      in TrimSpace (Trim (TrimSpace uncommented) (CHR 0x27)))"

definition spec_record :: "string \<Rightarrow> (string \<times> string) option" where
  "spec_record record =
     (if HasPrefix record ''END'' then None
      else if CHR ''='' \<notin> set record then None
      else Some (spec_key record, spec_value record))"

definition spec_HeaderMap :: "string \<Rightarrow> (string \<rightharpoonup> string)" where
  "spec_HeaderMap bytes = map_of (rev (List.map_filter spec_record (records80 bytes)))"

section \<open>The library functions\<close>

text \<open>
  What the proofs below ask of \<^verbatim>\<open>math.Atan2\<close>: its result is a NaN when an argument is
  one, and otherwise an angle between \<open>-Pi64\<close> and \<open>Pi64\<close>.
\<close>

definition atan2_ok :: "(float64 \<Rightarrow> float64 \<Rightarrow> float64) \<Rightarrow> bool" where
  "atan2_ok at2 =
     (\<forall>y x. (isNaN y \<or> isNaN x \<longrightarrow> isNaN (at2 y x)) \<and>
            (\<not> isNaN y \<and> \<not> isNaN x \<longrightarrow>
               isFinite (at2 y x) \<and> \<bar>fval (at2 y x)\<bar> \<le> fval Pi64))"

text \<open>
  A reference library for evaluating the parser on concrete files. \<open>Atan2_ref\<close> follows
  the source of \<^verbatim>\<open>math.Atan2\<close>: its special cases, then the quadrant correction of the
  arctangent of the quotient; \<open>Atan_ref\<close> rounds the exact arctangent where
  \<^verbatim>\<open>math.Atan\<close> approximates it. \<open>ParseFloat_ref\<close> gives the values of
  \<^verbatim>\<open>strconv.ParseFloat\<close> on the literals that the examples use, and an error on the
  other strings.
\<close>

definition copysign :: "float64 \<Rightarrow> float64 \<Rightarrow> float64" where
  "copysign f sign = (if signbit f = signbit sign then f else fneg f)"

definition HalfPi64 :: float64 where
  "HalfPi64 = Fin (884279719003555 / 562949953421312)"

definition QuarterPi64 :: float64 where
  "QuarterPi64 = Fin (884279719003555 / 1125899906842624)"

definition ThreeQuarterPi64 :: float64 where
  "ThreeQuarterPi64 = Fin (2652839157010665 / 1125899906842624)"

definition Atan_ref :: "float64 \<Rightarrow> float64" where
  "Atan_ref x =
     (case x of
        NaN \<Rightarrow> NaN
      | PInf \<Rightarrow> HalfPi64
      | NInf \<Rightarrow> fneg HalfPi64
      | NZero \<Rightarrow> NZero
      | Fin v \<Rightarrow> round64 (arctan v))"

definition Atan2_ref :: "float64 \<Rightarrow> float64 \<Rightarrow> float64" where
  "Atan2_ref y x =
     (if isNaN x \<or> isNaN y then NaN
      else if feq y (Fin 0) then
        (if fge x (Fin 0) \<and> \<not> signbit x then copysign (Fin 0) y else copysign Pi64 y)
      else if feq x (Fin 0) then copysign HalfPi64 y
      else if isInf x then
        (if x = PInf
         then (if isInf y then copysign QuarterPi64 y else copysign (Fin 0) y)
         else (if isInf y then copysign ThreeQuarterPi64 y else copysign Pi64 y))
      else if isInf y then copysign HalfPi64 y
      else
        let q = Atan_ref (fdiv y x) in
        if flt x (Fin 0)
        then (if flt q (Fin 0) \<or> feq q (Fin 0) then fadd q Pi64 else fsub q Pi64)
        else q)"

definition ParseFloat_ref :: "string \<Rightarrow> float64 option" where
  "ParseFloat_ref =
     map_of [(''0'', Fin 0), (''-0'', NZero), (''1'', Fin 1), (''-1'', Fin (- 1)),
             (''2'', Fin 2), (''4'', Fin 4), (''10'', Fin 10), (''50'', Fin 50),
             (''100'', Fin 100), (''200'', Fin 200), (''400'', Fin 400),
             (''NaN'', NaN), (''Inf'', PInf), (''-Inf'', NInf)]"

definition reflib :: golib where
  "reflib = \<lparr>ParseFloat = ParseFloat_ref, Atan2 = Atan2_ref\<rparr>"

section \<open>Example files\<close>

text \<open>Records of 80 bytes each, as the solver writes them, and four files made of them.\<close>

definition rec_CRVAL1_10 :: string where
  "rec_CRVAL1_10 =
     ''CRVAL1  =                   10 / RA of reference point (deg)                    ''"

definition rec_CRVAL1_0 :: string where
  "rec_CRVAL1_0 =
     ''CRVAL1  =                    0 / RA of reference point (deg)                    ''"

definition rec_CRVAL2_10 :: string where
  "rec_CRVAL2_10 =
     ''CRVAL2  =                   10 / Dec of reference point (deg)                   ''"

definition rec_CD1_1_1 :: string where
  "rec_CD1_1_1 =
     ''CD1_1   =                    1 / Transformation matrix                          ''"

definition rec_CD1_1_m1 :: string where
  "rec_CD1_1_m1 =
     ''CD1_1   =                   -1 / Transformation matrix                          ''"

definition rec_CD1_2_NaN :: string where
  "rec_CD1_2_NaN =
     ''CD1_2   =                  NaN / Transformation matrix                          ''"

definition rec_CROTA2_400 :: string where
  "rec_CROTA2_400 =
     ''CROTA2  =                  400 / Rotation angle (deg)                           ''"

definition rec_IMAGEW_100 :: string where
  "rec_IMAGEW_100 =
     ''IMAGEW  =                  100 / Image width                                    ''"

definition rec_IMAGEH_100 :: string where
  "rec_IMAGEH_100 =
     ''IMAGEH  =                  100 / Image height                                   ''"

definition rec_NAXIS1_200 :: string where
  "rec_NAXIS1_200 =
     ''NAXIS1  =                  200 / Image width                                    ''"

definition rec_NAXIS2_400 :: string where
  "rec_NAXIS2_400 =
     ''NAXIS2  =                  400 / Image height                                   ''"

definition rec_CTYPE1 :: string where
  "rec_CTYPE1 =
     ''CTYPE1  = 'RA---TAN'           / WCS projection type                            ''"

definition rec_END :: string where
  "rec_END =
     ''END                                                                             ''"

definition file_primary :: string where
  "file_primary = rec_CRVAL1_10 @ rec_CD1_1_1 @ rec_CTYPE1 @ rec_IMAGEW_100 @ rec_IMAGEH_100 @
     rec_NAXIS1_200 @ rec_NAXIS2_400 @ rec_END"

definition file_zero :: string where
  "file_zero = rec_CRVAL1_0 @ rec_IMAGEW_100 @ rec_IMAGEH_100 @ rec_END"

definition file_nan :: string where
  "file_nan = rec_CRVAL1_10 @ rec_CD1_2_NaN @ rec_IMAGEW_100 @ rec_IMAGEH_100 @ rec_END"

definition file_fallback :: string where
  "file_fallback = rec_CRVAL2_10 @ rec_CD1_1_m1 @ rec_CROTA2_400 @ rec_IMAGEW_100 @ rec_END"

text \<open>A file system with these four files and nothing else (errno 2 is ENOENT).\<close>

definition fs_example :: filesystem where
  "fs_example name =
     (if name = ''primary.wcs'' then Inr file_primary
      else if name = ''zero.wcs'' then Inr file_zero
      else if name = ''nan.wcs'' then Inr file_nan
      else if name = ''fallback.wcs'' then Inr file_fallback
      else Inl 2)"

section \<open>Facts about float64 arithmetic\<close>

subsection \<open>Rounding keeps integers and bounds\<close>

lemma rne_of_int: "rne (of_int n) = n"
  by (simp add: rne_def)

lemma rne_le: "r \<le> of_int n \<Longrightarrow> rne r \<le> n"
proof -
  assume h: "r \<le> of_int n"
  show ?thesis
  proof (cases "r = of_int n")
    case True
    then show ?thesis by (simp add: rne_of_int)
  next
    case False
    with h have "r < of_int n" by simp
    then have "\<lfloor>r\<rfloor> < n" by (simp add: floor_less_iff)
    moreover have "rne r \<le> \<lfloor>r\<rfloor> + 1" by (simp add: rne_def Let_def)
    ultimately show ?thesis by linarith
  qed
qed

lemma rne_ge: "of_int n \<le> r \<Longrightarrow> n \<le> rne r"
proof -
  assume "of_int n \<le> r"
  then have "n \<le> \<lfloor>r\<rfloor>" by (simp add: le_floor_iff)
  moreover have "\<lfloor>r\<rfloor> \<le> rne r" by (simp add: rne_def Let_def)
  ultimately show ?thesis by linarith
qed

lemma quantum_small:
  fixes n j :: nat
  assumes x0: "x \<noteq> 0" and ax: "\<bar>x\<bar> < 2 ^ n" and n: "n + j \<le> 53"
  shows "\<exists>k::nat. 2 powi (max \<lfloor>log 2 \<bar>x\<bar>\<rfloor> (- 1022) - 52) = 1 / (2::real) ^ (j + k)"
proof -
  have "\<bar>x\<bar> < 2 powr (real n)" using ax by (simp add: powr_realpow)
  then have "log 2 \<bar>x\<bar> < real n" using x0 by (simp add: log_less_iff)
  then have "\<lfloor>log 2 \<bar>x\<bar>\<rfloor> < int n" by (simp add: floor_less_iff)
  then have e: "max \<lfloor>log 2 \<bar>x\<bar>\<rfloor> (- 1022) - 52 \<le> - int j" using n by linarith
  define k where "k = nat (- (max \<lfloor>log 2 \<bar>x\<bar>\<rfloor> (- 1022) - 52) - int j)"
  have "max \<lfloor>log 2 \<bar>x\<bar>\<rfloor> (- 1022) - 52 = - int (j + k)" using e by (simp add: k_def)
  then have "2 powi (max \<lfloor>log 2 \<bar>x\<bar>\<rfloor> (- 1022) - 52) = (2::real) powi (- int (j + k))"
    by (simp only:)
  also have "\<dots> = 1 / (2::real) ^ (j + k)"
    by (simp only: power_int_minus power_int_of_nat divide_inverse mult_1)
  finally show ?thesis by blast
qed

lemma round64_bounds_aux:
  fixes a b :: int and n j :: nat
  assumes x0: "x \<noteq> 0" and lo: "of_int a / 2 ^ j \<le> x" and hi: "x \<le> of_int b / 2 ^ j"
    and ax: "\<bar>x\<bar> < 2 ^ n" and n: "n + j \<le> 53"
  defines "q \<equiv> 2 powi (max \<lfloor>log 2 \<bar>x\<bar>\<rfloor> (- 1022) - 52)"
  shows "of_int a / 2 ^ j \<le> of_int (rne (x / q)) * q \<and> of_int (rne (x / q)) * q \<le> of_int b / 2 ^ j"
proof -
  from quantum_small [OF x0 ax n] obtain k :: nat where q: "q = 1 / 2 ^ (j + k)"
    unfolding q_def by blast
  have xq: "x / q = x * 2 ^ (j + k)" using q by simp
  have bq: "real_of_int b / 2 ^ j = of_int (b * 2 ^ k) * q"
    and aq: "real_of_int a / 2 ^ j = of_int (a * 2 ^ k) * q"
    using q by (simp_all add: power_add)
  have qpos: "0 \<le> q" using q by simp
  have "x * 2 ^ (j + k) \<le> (of_int b / 2 ^ j) * 2 ^ (j + k)"
    using hi by (intro mult_right_mono) simp_all
  then have "x * 2 ^ (j + k) \<le> of_int (b * 2 ^ k)" by (simp add: power_add)
  then have "rne (x / q) \<le> b * 2 ^ k" unfolding xq by (rule rne_le)
  then have "real_of_int (rne (x / q)) \<le> of_int (b * 2 ^ k)"
    by (simp only: of_int_le_iff)
  then have up: "real_of_int (rne (x / q)) * q \<le> of_int (b * 2 ^ k) * q"
    using qpos by (rule mult_right_mono)
  have "(of_int a / 2 ^ j) * 2 ^ (j + k) \<le> x * 2 ^ (j + k)"
    using lo by (intro mult_right_mono) simp_all
  then have "of_int (a * 2 ^ k) \<le> x * 2 ^ (j + k)" by (simp add: power_add)
  then have "a * 2 ^ k \<le> rne (x / q)" unfolding xq by (rule rne_ge)
  then have "real_of_int (a * 2 ^ k) \<le> real_of_int (rne (x / q))"
    by (simp only: of_int_le_iff)
  then have "real_of_int (a * 2 ^ k) * q \<le> real_of_int (rne (x / q)) * q"
    using qpos by (rule mult_right_mono)
  with up show ?thesis unfolding aq bq by simp
qed

lemma round64_dyadic_bounds:
  fixes a b :: int and n j :: nat
  assumes lo: "of_int a / 2 ^ j \<le> x" and hi: "x \<le> of_int b / 2 ^ j"
    and ax: "\<bar>x\<bar> < 2 ^ n" and n: "n + j \<le> 53"
  shows "isFinite (round64 x) \<and> of_int a / 2 ^ j \<le> fval (round64 x) \<and>
     fval (round64 x) \<le> of_int b / 2 ^ j"
proof (cases "x = 0")
  case True
  then show ?thesis using lo hi by (simp add: round64_def isFinite_def)
next
  case False
  define y :: real where "y = of_int (rne (x / 2 powi (max \<lfloor>log 2 \<bar>x\<bar>\<rfloor> (- 1022) - 52))) *
     2 powi (max \<lfloor>log 2 \<bar>x\<bar>\<rfloor> (- 1022) - 52)"
  have b: "of_int a / 2 ^ j \<le> y \<and> y \<le> of_int b / 2 ^ j"
    unfolding y_def using False lo hi ax n by (rule round64_bounds_aux)
  have "of_int (- (2 ^ n)) / 2 ^ 0 \<le> y \<and> y \<le> of_int (2 ^ n) / 2 ^ 0"
    unfolding y_def using False _ _ ax
  proof (rule round64_bounds_aux)
    show "real_of_int (- (2 ^ n)) / 2 ^ 0 \<le> x" "x \<le> real_of_int (2 ^ n) / 2 ^ 0"
      using ax by simp_all
    show "n + 0 \<le> 53" using n by simp
  qed
  then have "\<bar>y\<bar> \<le> 2 ^ n" by (simp add: abs_le_iff)
  also have "(2::real) ^ n < 2 ^ 1024" using n by (intro power_strict_increasing) simp_all
  also have "(2::real) ^ 1024 = 2 powi 1024" by (simp only: power_int_numeral)
  finally have fin: "\<not> 2 powi 1024 \<le> \<bar>y\<bar>" by simp
  have r: "round64 x = (if y = 0 then mkzero (x < 0) else Fin y)"
    using False fin unfolding round64_def y_def Let_def by (simp only: if_False)
  show ?thesis using b by (simp add: r isFinite_def mkzero_def)
qed

lemma round64_bounds:
  fixes lo hi :: int
  assumes lo: "of_int lo \<le> x" and hi: "x \<le> of_int hi"
    and blo: "\<bar>real_of_int lo\<bar> < 2 ^ 53" and bhi: "\<bar>real_of_int hi\<bar> < 2 ^ 53"
  shows "isFinite (round64 x) \<and> of_int lo \<le> fval (round64 x) \<and> fval (round64 x) \<le> of_int hi"
proof -
  have ax: "\<bar>x\<bar> < 2 ^ 53" using lo hi blo bhi by linarith
  have "isFinite (round64 x) \<and> of_int lo / 2 ^ 0 \<le> fval (round64 x) \<and>
     fval (round64 x) \<le> of_int hi / 2 ^ 0"
    using _ _ ax by (rule round64_dyadic_bounds) (use lo hi in simp_all)
  then show ?thesis by simp
qed

lemma round64_nonneg:
  assumes "0 \<le> x"
  shows "round64 x = PInf \<or> (\<exists>y. round64 x = Fin y \<and> 0 \<le> y)"
proof (cases "x = 0")
  case True
  then show ?thesis by (simp add: round64_def)
next
  case False
  then have pos: "0 < x" using assms by simp
  define q :: real where "q = 2 powi (max \<lfloor>log 2 \<bar>x\<bar>\<rfloor> (- 1022) - 52)"
  have q: "0 < q" by (simp add: q_def)
  have "of_int 0 \<le> x / q" using pos q by simp
  then have "0 \<le> rne (x / q)" by (rule rne_ge)
  then have "0 \<le> of_int (rne (x / q)) * q" using q by simp
  then show ?thesis using pos
    unfolding round64_def Let_def q_def [symmetric] by (simp add: mkinf_def mkzero_def)
qed

lemma round64_of_int:
  assumes "\<bar>real_of_int m\<bar> < 2 ^ 53"
  shows "round64 (of_int m) = Fin (of_int m)"
proof (cases "m = 0")
  case True
  then show ?thesis by (simp add: round64_def)
next
  case False
  have "isFinite (round64 (of_int m)) \<and> of_int m \<le> fval (round64 (of_int m)) \<and>
      fval (round64 (of_int m)) \<le> of_int m"
    using assms by (intro round64_bounds) simp_all
  then show ?thesis using False
    by (cases "round64 (real_of_int m)") (simp_all add: isFinite_def)
qed

lemma round64_numeral: "\<bar>numeral w :: real\<bar> < 2 ^ 53 \<Longrightarrow> round64 (numeral w) = Fin (numeral w)"
  using round64_of_int [of "numeral w"] by simp

lemma round64_neg_numeral:
  "\<bar>numeral w :: real\<bar> < 2 ^ 53 \<Longrightarrow> round64 (- numeral w) = Fin (- numeral w)"
  using round64_of_int [of "- numeral w"] by simp

lemma round64_one: "round64 1 = Fin 1"
  using round64_of_int [of 1] by simp

subsection \<open>Bounds on the results of the operations\<close>

lemma isFinite_cases: "isFinite a \<Longrightarrow> a = NZero \<or> (\<exists>x. a = Fin x)"
  by (cases a) (simp_all add: isFinite_def)

lemma fadd_bounds:
  fixes lo hi :: int
  assumes "isFinite a" "isFinite b"
    and "of_int lo \<le> fval a + fval b" "fval a + fval b \<le> of_int hi"
    and "\<bar>real_of_int lo\<bar> < 2 ^ 53" "\<bar>real_of_int hi\<bar> < 2 ^ 53"
  shows "isFinite (fadd a b) \<and> of_int lo \<le> fval (fadd a b) \<and> fval (fadd a b) \<le> of_int hi"
proof -
  have na: "\<not> isNaN a" "\<not> isInf a" "\<not> isNaN b" "\<not> isInf b"
    using assms(1,2) by (simp_all add: isFinite_def)
  show ?thesis
  proof (cases "isZero a \<or> isZero b")
    case True
    then show ?thesis using assms na
      by (auto simp: fadd_def isZero_def mkzero_def isFinite_def)
  next
    case False
    then have "fadd a b = round64 (fval a + fval b)" using na by (simp add: fadd_def)
    then show ?thesis using round64_bounds [OF assms(3-6)] by simp
  qed
qed

lemma fmul_bounds:
  fixes lo hi :: int
  assumes "isFinite a" "isFinite b"
    and "of_int lo \<le> fval a * fval b" "fval a * fval b \<le> of_int hi"
    and "\<bar>real_of_int lo\<bar> < 2 ^ 53" "\<bar>real_of_int hi\<bar> < 2 ^ 53"
  shows "isFinite (fmul a b) \<and> of_int lo \<le> fval (fmul a b) \<and> fval (fmul a b) \<le> of_int hi"
proof -
  have na: "\<not> isNaN a" "\<not> isInf a" "\<not> isNaN b" "\<not> isInf b"
    using assms(1,2) by (simp_all add: isFinite_def)
  show ?thesis
  proof (cases "isZero a \<or> isZero b")
    case True
    then show ?thesis using assms na
      by (auto simp: fmul_def isZero_def mkzero_def isFinite_def)
  next
    case False
    then have "fmul a b = round64 (fval a * fval b)" using na by (simp add: fmul_def)
    then show ?thesis using round64_bounds [OF assms(3-6)] by simp
  qed
qed

lemma fdiv_bounds:
  fixes lo hi :: int
  assumes "isFinite a" "isFinite b" "fval b \<noteq> 0"
    and "of_int lo \<le> fval a / fval b" "fval a / fval b \<le> of_int hi"
    and "\<bar>real_of_int lo\<bar> < 2 ^ 53" "\<bar>real_of_int hi\<bar> < 2 ^ 53"
  shows "isFinite (fdiv a b) \<and> of_int lo \<le> fval (fdiv a b) \<and> fval (fdiv a b) \<le> of_int hi"
proof -
  have na: "\<not> isNaN a" "\<not> isInf a" "\<not> isNaN b" "\<not> isInf b" "\<not> isZero b"
    using assms(1-3) by (simp_all add: isFinite_def isZero_def)
  show ?thesis
  proof (cases "isZero a")
    case True
    then show ?thesis using assms na
      by (auto simp: fdiv_def isZero_def mkzero_def isFinite_def)
  next
    case False
    then have "fdiv a b = round64 (fval a / fval b)" using na by (simp add: fdiv_def)
    then show ?thesis using round64_bounds [OF assms(4-7)] by simp
  qed
qed

lemma fneg_finite: "isFinite a \<Longrightarrow> isFinite (fneg a) \<and> fval (fneg a) = - fval a"
  by (cases a) (simp_all add: isFinite_def)

lemma fsub_bounds:
  fixes lo hi :: int
  assumes "isFinite a" "isFinite b"
    and "of_int lo \<le> fval a - fval b" "fval a - fval b \<le> of_int hi"
    and "\<bar>real_of_int lo\<bar> < 2 ^ 53" "\<bar>real_of_int hi\<bar> < 2 ^ 53"
  shows "isFinite (fsub a b) \<and> of_int lo \<le> fval (fsub a b) \<and> fval (fsub a b) \<le> of_int hi"
  unfolding fsub_def using assms fneg_finite [OF assms(2)]
  by (intro fadd_bounds) simp_all

lemma Pi64_bounds: "isFinite Pi64" "3 \<le> fval Pi64" "fval Pi64 \<le> 4"
  by (simp_all add: Pi64_def isFinite_def)

text \<open>The angle before normalisation.\<close>

lemma rotation_raw_finite:
  assumes "isFinite r" "\<bar>fval r\<bar> \<le> fval Pi64"
  defines "rot \<equiv> fsub (Fin 180) (fdiv (fmul r (Fin 180)) Pi64)"
  shows "isFinite rot \<and> - 60 \<le> fval rot \<and> fval rot \<le> 420"
proof -
  have r4: "\<bar>fval r\<bar> \<le> 4" using assms(2) Pi64_bounds(3) by linarith
  have a: "isFinite (fmul r (Fin 180)) \<and> of_int (- 720) \<le> fval (fmul r (Fin 180)) \<and>
      fval (fmul r (Fin 180)) \<le> of_int 720"
    using assms(1) r4 by (intro fmul_bounds) (simp_all add: isFinite_def abs_le_iff)
  define a where "a = fmul r (Fin 180)"
  have a': "isFinite a" "\<bar>fval a\<bar> \<le> 720" using a by (simp_all add: a_def abs_le_iff)
  have "\<bar>fval a\<bar> / \<bar>fval Pi64\<bar> \<le> 720 / 3"
    using a'(2) Pi64_bounds(2) by (intro frac_le) simp_all
  then have "\<bar>fval a / fval Pi64\<bar> \<le> 240" by (simp only: abs_divide)
  then have q: "- 240 \<le> fval a / fval Pi64" "fval a / fval Pi64 \<le> 240"
    by (simp_all only: abs_le_iff) linarith+
  have b: "isFinite (fdiv a Pi64) \<and> of_int (- 240) \<le> fval (fdiv a Pi64) \<and>
      fval (fdiv a Pi64) \<le> of_int 240"
    using a'(1) Pi64_bounds(1) _ _ _
  proof (rule fdiv_bounds)
    show "fval Pi64 \<noteq> 0" using Pi64_bounds(2) by simp
  qed (use q in simp_all)
  have "isFinite (fsub (Fin 180) (fdiv a Pi64)) \<and> of_int (- 60) \<le> fval (fsub (Fin 180) (fdiv a Pi64)) \<and>
      fval (fsub (Fin 180) (fdiv a Pi64)) \<le> of_int 420"
    using b by (intro fsub_bounds) (simp_all add: isFinite_def)
  then show ?thesis by (simp add: rot_def a_def)
qed

lemma rotation_raw_NaN:
  "isNaN r \<Longrightarrow> fsub (Fin 180) (fdiv (fmul r (Fin 180)) Pi64) = NaN"
  by (cases r) (simp_all add: fsub_def fadd_def fdiv_def fmul_def)

text \<open>The two loops end on such an angle, in the half-open interval.\<close>

lemma normalizeLow_NaN: "normalizeLow NaN = Some NaN"
  by (subst normalizeLow.simps) (simp add: flt_def)

lemma normalizeHigh_NaN: "normalizeHigh NaN = Some NaN"
  by (subst normalizeHigh.simps) (simp add: fge_def flt_def feq_def)

lemma flt_zero_iff: "isFinite a \<Longrightarrow> flt a (Fin 0) = (fval a < 0)"
  by (auto simp: flt_def isFinite_def)

lemma fge_360_iff: "isFinite a \<Longrightarrow> fge a (Fin 360) = (360 \<le> fval a)"
  by (auto simp: fge_def flt_def feq_def isFinite_def)

lemma normalizeLow_finite:
  assumes "isFinite rot" "- 60 \<le> fval rot" "fval rot \<le> 420"
  shows "\<exists>r1. normalizeLow rot = Some r1 \<and> isFinite r1 \<and> 0 \<le> fval r1 \<and> fval r1 \<le> 420"
proof (cases "fval rot < 0")
  case False
  then have "normalizeLow rot = Some rot"
    using assms(1) by (subst normalizeLow.simps) (simp add: flt_zero_iff)
  then show ?thesis using assms False by simp
next
  case True
  have b: "isFinite (fadd rot (Fin 360)) \<and> of_int 300 \<le> fval (fadd rot (Fin 360)) \<and>
      fval (fadd rot (Fin 360)) \<le> of_int 360"
    using assms True by (intro fadd_bounds) (simp_all add: isFinite_def)
  then have "normalizeLow (fadd rot (Fin 360)) = Some (fadd rot (Fin 360))"
    by (subst normalizeLow.simps) (simp add: flt_zero_iff)
  then have "normalizeLow rot = Some (fadd rot (Fin 360))"
    using True assms(1) by (subst normalizeLow.simps) (simp add: flt_zero_iff)
  then show ?thesis using b by simp
qed

lemma normalizeHigh_finite:
  assumes "isFinite r1" "0 \<le> fval r1" "fval r1 \<le> 420"
  shows "\<exists>r2. normalizeHigh r1 = Some r2 \<and> isFinite r2 \<and> 0 \<le> fval r2 \<and> fval r2 < 360"
proof (cases "360 \<le> fval r1")
  case False
  then have "normalizeHigh r1 = Some r1"
    using assms(1) by (subst normalizeHigh.simps) (simp add: fge_360_iff)
  then show ?thesis using assms False by simp
next
  case True
  have b: "isFinite (fsub r1 (Fin 360)) \<and> of_int 0 \<le> fval (fsub r1 (Fin 360)) \<and>
      fval (fsub r1 (Fin 360)) \<le> of_int 60"
    using assms True by (intro fsub_bounds) (simp_all add: isFinite_def)
  then have "normalizeHigh (fsub r1 (Fin 360)) = Some (fsub r1 (Fin 360))"
    by (subst normalizeHigh.simps) (simp add: fge_360_iff)
  then have "normalizeHigh r1 = Some (fsub r1 (Fin 360))"
    using True assms(1) by (subst normalizeHigh.simps) (simp add: fge_360_iff)
  then show ?thesis using b by simp
qed

subsection \<open>The reference arctangent is within the bounds\<close>

lemma round64_not_NaN: "\<not> isNaN (round64 v)"
  by (simp add: round64_def Let_def mkinf_def mkzero_def)

lemma copysign_finite:
  "isFinite f \<Longrightarrow> isFinite (copysign f s) \<and> \<bar>fval (copysign f s)\<bar> = \<bar>fval f\<bar>"
  using fneg_finite [of f] by (simp add: copysign_def)

lemma Atan_ref_bounds:
  assumes "\<not> isNaN a"
  shows "isFinite (Atan_ref a) \<and> - 2 \<le> fval (Atan_ref a) \<and> fval (Atan_ref a) \<le> 2"
proof (cases a)
  case (Fin v)
  have "- (pi / 2) < arctan v" "arctan v < pi / 2" by (rule arctan_lbound, rule arctan_ubound)
  then have "of_int (- 2) \<le> arctan v" "arctan v \<le> of_int 2" using pi_less_4 by simp_all
  then have "isFinite (round64 (arctan v)) \<and> of_int (- 2) \<le> fval (round64 (arctan v)) \<and>
      fval (round64 (arctan v)) \<le> of_int 2"
    by (rule round64_bounds) simp_all
  then show ?thesis using Fin by (simp add: Atan_ref_def)
qed (use assms in \<open>simp_all add: Atan_ref_def HalfPi64_def isFinite_def\<close>)

lemma fadd_Pi64_bounds:
  assumes "isFinite q" "- 2 \<le> fval q" "fval q \<le> 0"
  shows "isFinite (fadd q Pi64) \<and> \<bar>fval (fadd q Pi64)\<bar> \<le> fval Pi64"
proof (cases "isZero q")
  case True
  then show ?thesis using assms(1) by (simp add: fadd_def isZero_def isFinite_def Pi64_def)
next
  case False
  then have e: "fadd q Pi64 = round64 (fval q + 884279719003555 / 281474976710656)"
    using assms(1) by (simp add: fadd_def isZero_def isFinite_def Pi64_def)
  have "isFinite (round64 (fval q + 884279719003555 / 281474976710656)) \<and>
     of_int 0 / 2 ^ 48 \<le> fval (round64 (fval q + 884279719003555 / 281474976710656)) \<and>
     fval (round64 (fval q + 884279719003555 / 281474976710656)) \<le> of_int 884279719003555 / 2 ^ 48"
  proof (rule round64_dyadic_bounds [where n = 2])
    show "of_int 0 / 2 ^ 48 \<le> fval q + 884279719003555 / 281474976710656"
      using assms(2) by simp
    show "fval q + 884279719003555 / 281474976710656 \<le> of_int 884279719003555 / 2 ^ 48"
      using assms(3) by simp
    show "\<bar>fval q + 884279719003555 / 281474976710656\<bar> < 2 ^ 2"
      using assms(2,3) by (simp add: abs_less_iff)
  qed simp
  then show ?thesis unfolding e by (simp add: Pi64_def)
qed

lemma fsub_Pi64_bounds:
  assumes "isFinite q" "0 < fval q" "fval q \<le> 2"
  shows "isFinite (fsub q Pi64) \<and> \<bar>fval (fsub q Pi64)\<bar> \<le> fval Pi64"
proof -
  have e: "fsub q Pi64 = round64 (fval q + - (884279719003555 / 281474976710656))"
    using assms(1,2) by (simp add: fsub_def fadd_def isZero_def isFinite_def Pi64_def)
  have "isFinite (round64 (fval q + - (884279719003555 / 281474976710656))) \<and>
     of_int (- 884279719003555) / 2 ^ 48 \<le> fval (round64 (fval q + - (884279719003555 / 281474976710656))) \<and>
     fval (round64 (fval q + - (884279719003555 / 281474976710656))) \<le> of_int 0 / 2 ^ 48"
  proof (rule round64_dyadic_bounds [where n = 2])
    show "of_int (- 884279719003555) / 2 ^ 48 \<le> fval q + - (884279719003555 / 281474976710656)"
      using assms(2) by simp
    show "fval q + - (884279719003555 / 281474976710656) \<le> of_int 0 / 2 ^ 48"
      using assms(3) by simp
    show "\<bar>fval q + - (884279719003555 / 281474976710656)\<bar> < 2 ^ 2"
      using assms(2,3) by (simp add: abs_less_iff)
  qed simp
  then show ?thesis unfolding e by (simp add: Pi64_def)
qed

lemma fdiv_not_NaN:
  assumes "isFinite y" "isFinite x" "fval x \<noteq> 0"
  shows "\<not> isNaN (fdiv y x)"
  using assms by (simp add: fdiv_def isFinite_def isZero_def mkzero_def round64_not_NaN)

lemma Atan2_ref_ok: "atan2_ok Atan2_ref"
  unfolding atan2_ok_def
proof (intro allI conjI)
  fix y x :: float64
  show "isNaN y \<or> isNaN x \<longrightarrow> isNaN (Atan2_ref y x)" by (auto simp: Atan2_ref_def)
next
  fix y x :: float64
  show "\<not> isNaN y \<and> \<not> isNaN x \<longrightarrow>
      isFinite (Atan2_ref y x) \<and> \<bar>fval (Atan2_ref y x)\<bar> \<le> fval Pi64"
  proof
  assume nn: "\<not> isNaN y \<and> \<not> isNaN x"
  have c: "isFinite (copysign (Fin 0) y) \<and> \<bar>fval (copysign (Fin 0) y)\<bar> \<le> fval Pi64"
    "isFinite (copysign Pi64 y) \<and> \<bar>fval (copysign Pi64 y)\<bar> \<le> fval Pi64"
    "isFinite (copysign HalfPi64 y) \<and> \<bar>fval (copysign HalfPi64 y)\<bar> \<le> fval Pi64"
    "isFinite (copysign QuarterPi64 y) \<and> \<bar>fval (copysign QuarterPi64 y)\<bar> \<le> fval Pi64"
    "isFinite (copysign ThreeQuarterPi64 y) \<and> \<bar>fval (copysign ThreeQuarterPi64 y)\<bar> \<le> fval Pi64"
    using copysign_finite [of "Fin 0" y] copysign_finite [of Pi64 y] copysign_finite [of HalfPi64 y]
      copysign_finite [of QuarterPi64 y] copysign_finite [of ThreeQuarterPi64 y]
    by (simp_all add: isFinite_def Pi64_def HalfPi64_def QuarterPi64_def ThreeQuarterPi64_def)
  show "isFinite (Atan2_ref y x) \<and> \<bar>fval (Atan2_ref y x)\<bar> \<le> fval Pi64"
  proof (cases "feq y (Fin 0) \<or> feq x (Fin 0) \<or> isInf x \<or> isInf y")
    case True
    then show ?thesis using nn c by (auto simp: Atan2_ref_def)
  next
    case False
    then have fin: "isFinite y" "isFinite x" "fval x \<noteq> 0"
      using nn by (auto simp: isFinite_def feq_def)
    define q where "q = Atan_ref (fdiv y x)"
    have q: "isFinite q" "- 2 \<le> fval q" "fval q \<le> 2"
      using Atan_ref_bounds [OF fdiv_not_NaN [OF fin]] by (simp_all add: q_def)
    have e: "Atan2_ref y x =
        (if flt x (Fin 0)
         then (if flt q (Fin 0) \<or> feq q (Fin 0) then fadd q Pi64 else fsub q Pi64)
         else q)"
      using False nn by (simp add: Atan2_ref_def q_def)
    have le: "(flt q (Fin 0) \<or> feq q (Fin 0)) = (fval q \<le> 0)"
      using q(1) by (auto simp: flt_def feq_def isFinite_def)
    show ?thesis
    proof (cases "flt x (Fin 0)")
      case False
      then show ?thesis using e q Pi64_bounds(2) by (simp add: abs_le_iff)
    next
      case True
      show ?thesis
      proof (cases "fval q \<le> 0")
        case True
        then show ?thesis using e \<open>flt x (Fin 0)\<close> le fadd_Pi64_bounds [OF q(1,2)] by simp
      next
        case False
        then show ?thesis using e \<open>flt x (Fin 0)\<close> le fsub_Pi64_bounds [OF q(1) _ q(3)] by simp
      qed
    qed
  qed
  qed
qed

section \<open>Facts about the parser\<close>

subsection \<open>The parser returns\<close>

lemma normalize_total:
  fixes y x :: float64
  assumes "atan2_ok at2"
  defines "raw \<equiv> fsub (Fin 180) (fdiv (fmul (at2 y x) (Fin 180)) Pi64)"
  shows "\<exists>r1 r2. normalizeLow raw = Some r1 \<and> normalizeHigh r1 = Some r2 \<and>
     (if isNaN y \<or> isNaN x then r2 = NaN else isFinite r2 \<and> 0 \<le> fval r2 \<and> fval r2 < 360)"
proof (cases "isNaN y \<or> isNaN x")
  case True
  then have "isNaN (at2 y x)" using assms(1) unfolding atan2_ok_def by blast
  then have "raw = NaN" unfolding raw_def by (rule rotation_raw_NaN)
  then show ?thesis using True by (simp add: normalizeLow_NaN normalizeHigh_NaN)
next
  case False
  then have "isFinite (at2 y x)" "\<bar>fval (at2 y x)\<bar> \<le> fval Pi64"
    using assms(1) unfolding atan2_ok_def by blast+
  then have "isFinite raw \<and> - 60 \<le> fval raw \<and> fval raw \<le> 420"
    unfolding raw_def by (rule rotation_raw_finite)
  then obtain r1 where r1: "normalizeLow raw = Some r1" "isFinite r1" "0 \<le> fval r1" "fval r1 \<le> 420"
    using normalizeLow_finite [of raw] by blast
  then obtain r2 where "normalizeHigh r1 = Some r2" "isFinite r2" "0 \<le> fval r2" "fval r2 < 360"
    using normalizeHigh_finite [of r1] by blast
  then show ?thesis using r1(1) False by simp
qed

lemma primaryPath_result:
  assumes "atan2_ok (Atan2 L)"
  shows "\<exists>r1 rot.
     normalizeLow (fsub (Fin 180) (fdiv (fmul (Atan2 L (cd12 p) (cd11 p)) (Fin 180)) Pi64)) = Some r1 \<and>
     normalizeHigh r1 = Some rot \<and>
     (if isNaN (cd12 p) \<or> isNaN (cd11 p) then rot = NaN
      else isFinite rot \<and> 0 \<le> fval rot \<and> fval rot < 360) \<and>
     primaryPath L p result = Some (result
       \<lparr>RA := fadd (crval1 p)
          (fadd (fmul (cd11 p) (fsub (fdiv (imageW p) (Fin 2)) (crpix1 p)))
                (fmul (cd12 p) (fsub (fdiv (imageH p) (Fin 2)) (crpix2 p)))),
        Dec := fadd (crval2 p)
          (fadd (fmul (cd21 p) (fsub (fdiv (imageW p) (Fin 2)) (crpix1 p)))
                (fmul (cd22 p) (fsub (fdiv (imageH p) (Fin 2)) (crpix2 p)))),
        PixelScale := fmul (fsqrt (fadd (fmul (cd11 p) (cd11 p)) (fmul (cd21 p) (cd21 p)))) (Fin 3600),
        Rotation := rot\<rparr>)"
proof -
  from normalize_total [OF assms, of "cd12 p" "cd11 p"]
  obtain r1 r2 where
    n: "normalizeLow (fsub (Fin 180) (fdiv (fmul (Atan2 L (cd12 p) (cd11 p)) (Fin 180)) Pi64)) = Some r1"
      "normalizeHigh r1 = Some r2"
      "if isNaN (cd12 p) \<or> isNaN (cd11 p) then r2 = NaN
       else isFinite r2 \<and> 0 \<le> fval r2 \<and> fval r2 < 360"
    by blast
  have "primaryPath L p result = Some (result
       \<lparr>RA := fadd (crval1 p)
          (fadd (fmul (cd11 p) (fsub (fdiv (imageW p) (Fin 2)) (crpix1 p)))
                (fmul (cd12 p) (fsub (fdiv (imageH p) (Fin 2)) (crpix2 p)))),
        Dec := fadd (crval2 p)
          (fadd (fmul (cd21 p) (fsub (fdiv (imageW p) (Fin 2)) (crpix1 p)))
                (fmul (cd22 p) (fsub (fdiv (imageH p) (Fin 2)) (crpix2 p)))),
        PixelScale := fmul (fsqrt (fadd (fmul (cd11 p) (cd11 p)) (fmul (cd21 p) (cd21 p)))) (Fin 3600),
        Rotation := r2\<rparr>)"
    by (simp add: primaryPath_def Let_def n(1,2))
  with n show ?thesis by blast
qed

lemma transform_total:
  assumes "atan2_ok (Atan2 L)"
  shows "\<exists>res. transform L p result = Some res"
  using primaryPath_result [OF assms, of p result] by (auto simp: transform_def)

lemma fieldDimensions_keeps:
  "Solved (fieldDimensions L r) = Solved r"
  "RA (fieldDimensions L r) = RA r"
  "Dec (fieldDimensions L r) = Dec r"
  "PixelScale (fieldDimensions L r) = PixelScale r"
  "Rotation (fieldDimensions L r) = Rotation r"
  "WCSHeader (fieldDimensions L r) = WCSHeader r"
  by (simp_all add: fieldDimensions_def Let_def split: option.splits)

lemma computeFields_total:
  assumes "atan2_ok (Atan2 L)"
  shows "\<exists>res. computeFields L hdr = Some res"
  using transform_total [OF assms, of "extractParams L hdr" "newResult\<lparr>WCSHeader := hdr\<rparr>"]
  by (auto simp: computeFields_def)

lemma ParseWCSFile_opened:
  assumes "os_Open fs wcsPath = Inr file"
  shows "ParseWCSFile L fs wcsPath =
     (case computeFields L (readRecords file Map.empty) of
        None \<Rightarrow> None | Some res \<Rightarrow> Some (validate res))"
  using assms by (simp add: ParseWCSFile_def newResult_def)

lemma os_Open_iff: "os_Open fs name = Inr file \<longleftrightarrow> fs name = Inr file"
  by (simp add: os_Open_def split: sum.splits)

subsection \<open>The example files, read\<close>

lemma readRecords_record:
  assumes "length r = 80"
  shows "readRecords (r @ rest) hdr =
     (case parseLine r of
        None \<Rightarrow> readRecords rest hdr
      | Some (key, valuePart) \<Rightarrow> readRecords rest (hdr(key \<mapsto> valuePart)))"
  using assms by (subst readRecords.simps) (simp split: option.splits)

lemma readRecords_last:
  assumes "length r = 80"
  shows "readRecords r hdr =
     (case parseLine r of None \<Rightarrow> hdr | Some (key, valuePart) \<Rightarrow> hdr(key \<mapsto> valuePart))"
  using readRecords_record [OF assms, of "[]" hdr]
  by (simp add: readRecords.simps [of "[]"] split: option.splits)

lemma rec_lengths:
  "length rec_CRVAL1_10 = 80" "length rec_CRVAL1_0 = 80" "length rec_CRVAL2_10 = 80"
  "length rec_CD1_1_1 = 80" "length rec_CD1_1_m1 = 80" "length rec_CD1_2_NaN = 80"
  "length rec_CROTA2_400 = 80" "length rec_IMAGEW_100 = 80" "length rec_IMAGEH_100 = 80"
  "length rec_NAXIS1_200 = 80" "length rec_NAXIS2_400 = 80" "length rec_CTYPE1 = 80"
  "length rec_END = 80"
  by (simp_all add: rec_CRVAL1_10_def rec_CRVAL1_0_def rec_CRVAL2_10_def rec_CD1_1_1_def
      rec_CD1_1_m1_def rec_CD1_2_NaN_def rec_CROTA2_400_def rec_IMAGEW_100_def
      rec_IMAGEH_100_def rec_NAXIS1_200_def rec_NAXIS2_400_def rec_CTYPE1_def rec_END_def)

lemma rec_parse:
  "parseLine rec_CRVAL1_10 = Some (''CRVAL1'', ''10'')"
  "parseLine rec_CRVAL1_0 = Some (''CRVAL1'', ''0'')"
  "parseLine rec_CRVAL2_10 = Some (''CRVAL2'', ''10'')"
  "parseLine rec_CD1_1_1 = Some (''CD1_1'', ''1'')"
  "parseLine rec_CD1_1_m1 = Some (''CD1_1'', ''-1'')"
  "parseLine rec_CD1_2_NaN = Some (''CD1_2'', ''NaN'')"
  "parseLine rec_CROTA2_400 = Some (''CROTA2'', ''400'')"
  "parseLine rec_IMAGEW_100 = Some (''IMAGEW'', ''100'')"
  "parseLine rec_IMAGEH_100 = Some (''IMAGEH'', ''100'')"
  "parseLine rec_NAXIS1_200 = Some (''NAXIS1'', ''200'')"
  "parseLine rec_NAXIS2_400 = Some (''NAXIS2'', ''400'')"
  "parseLine rec_CTYPE1 = Some (''CTYPE1'', ''RA---TAN'')"
  "parseLine rec_END = None"
  by code_simp+

lemma header_primary:
  "readRecords file_primary Map.empty =
     [''CRVAL1'' \<mapsto> ''10'', ''CD1_1'' \<mapsto> ''1'', ''CTYPE1'' \<mapsto> ''RA---TAN'',
      ''IMAGEW'' \<mapsto> ''100'', ''IMAGEH'' \<mapsto> ''100'', ''NAXIS1'' \<mapsto> ''200'', ''NAXIS2'' \<mapsto> ''400'']"
  by (simp add: file_primary_def readRecords_record readRecords_last rec_lengths rec_parse)

lemma header_zero:
  "readRecords file_zero Map.empty =
     [''CRVAL1'' \<mapsto> ''0'', ''IMAGEW'' \<mapsto> ''100'', ''IMAGEH'' \<mapsto> ''100'']"
  by (simp add: file_zero_def readRecords_record readRecords_last rec_lengths rec_parse)

lemma header_nan:
  "readRecords file_nan Map.empty =
     [''CRVAL1'' \<mapsto> ''10'', ''CD1_2'' \<mapsto> ''NaN'', ''IMAGEW'' \<mapsto> ''100'', ''IMAGEH'' \<mapsto> ''100'']"
  by (simp add: file_nan_def readRecords_record readRecords_last rec_lengths rec_parse)

lemma header_fallback:
  "readRecords file_fallback Map.empty =
     [''CRVAL2'' \<mapsto> ''10'', ''CD1_1'' \<mapsto> ''-1'', ''CROTA2'' \<mapsto> ''400'', ''IMAGEW'' \<mapsto> ''100'']"
  by (simp add: file_fallback_def readRecords_record readRecords_last rec_lengths rec_parse)

subsection \<open>Signs, and what each path leaves alone\<close>

lemma not_neg_iff: "(\<not> flt a (Fin 0)) = (isNaN a \<or> a = PInf \<or> isFinite a \<and> 0 \<le> fval a)"
  by (cases a) (auto simp: flt_def isFinite_def)

lemma fsqrt_not_neg: "\<not> flt (fsqrt a) (Fin 0)"
proof (cases a)
  case (Fin x)
  show ?thesis
  proof (cases "x < 0")
    case True
    then show ?thesis using Fin by (simp add: flt_def)
  next
    case False
    then have "0 \<le> sqrt x" by simp
    from round64_nonneg [OF this] show ?thesis using Fin False
      by (auto simp: not_neg_iff isFinite_def)
  qed
qed (simp_all add: flt_def isFinite_def)

lemma fmul_3600_not_neg:
  assumes "\<not> flt s (Fin 0)"
  shows "\<not> flt (fmul s (Fin 3600)) (Fin 0)"
proof -
  consider "isNaN s" | "s = PInf" | "isFinite s" "fval s = 0" | "isFinite s" "0 < fval s"
    using assms unfolding not_neg_iff by fastforce
  then show ?thesis
  proof cases
    case 1
    then show ?thesis by (simp add: fmul_def flt_def)
  next
    case 2
    then show ?thesis by (simp add: fmul_def flt_def isZero_def isFinite_def mkinf_def)
  next
    case 3
    then show ?thesis by (auto simp: fmul_def flt_def isZero_def isFinite_def mkzero_def)
  next
    case 4
    then have "fmul s (Fin 3600) = round64 (fval s * 3600)"
      by (simp add: fmul_def isZero_def isFinite_def)
    moreover have "0 \<le> fval s * 3600" using 4 by simp
    ultimately show ?thesis using round64_nonneg [of "fval s * 3600"]
      by (auto simp: not_neg_iff isFinite_def)
  qed
qed

lemma abs64_not_neg: "\<not> flt (abs64 a) (Fin 0)"
  by (cases a) (auto simp: abs64_def flt_def isFinite_def)

lemma primaryPath_keeps:
  assumes "primaryPath L p result = Some r"
  shows "Solved r = Solved result" "WCSHeader r = WCSHeader result"
    "FieldWidth r = FieldWidth result" "FieldHeight r = FieldHeight result"
    "PixelScale r = fmul (fsqrt (fadd (fmul (cd11 p) (cd11 p)) (fmul (cd21 p) (cd21 p)))) (Fin 3600)"
  using assms by (auto simp: primaryPath_def Let_def split: option.splits)

lemma fallbackPath_keeps:
  "Solved (fallbackPath L p result) = Solved result"
  "WCSHeader (fallbackPath L p result) = WCSHeader result"
  "FieldWidth (fallbackPath L p result) = FieldWidth result"
  "FieldHeight (fallbackPath L p result) = FieldHeight result"
  "RA (fallbackPath L p result) = crval1 p"
  "Dec (fallbackPath L p result) = crval2 p"
  "PixelScale (fallbackPath L p result) =
     (if fne (cd11 p) (Fin 0) then fmul (abs64 (cd11 p)) (Fin 3600) else PixelScale result)"
  by (simp_all add: fallbackPath_def Let_def split: option.splits)

lemma ParseWCSFile_InrD:
  assumes "ParseWCSFile L fs wcsPath = Some (Inr r)"
  obtains content t where "fs wcsPath = Inr content"
    and "transform L (extractParams L (readRecords content Map.empty))
           (newResult\<lparr>WCSHeader := readRecords content Map.empty\<rparr>) = Some t"
    and "r = fieldDimensions L t" and "\<not> allZero r"
  using assms
  by (auto simp: ParseWCSFile_def os_Open_def computeFields_def validate_def newResult_def
      split: sum.splits option.splits if_splits)

subsection \<open>The parser on the example files\<close>

lemmas float_eval = fadd_def fsub_def fmul_def fdiv_def isZero_def isFinite_def mkzero_def
  mkinf_def flt_def feq_def fgt_def fge_def fne_def round64_numeral round64_neg_numeral round64_one

lemma round64_zero: "round64 0 = Fin 0"
  by (simp add: round64_def)

lemmas lib_eval = reflib_def ParseFloat_ref_def getFloat_def floatOrZero_def

lemma Atan2_ref_values:
  "Atan2_ref (Fin 0) (Fin 1) = Fin 0"
  "Atan2_ref (Fin 0) (Fin 0) = Fin 0"
  "Atan2_ref NaN (Fin 0) = NaN"
  by (simp_all add: Atan2_ref_def copysign_def float_eval)

lemma normalize_values:
  "normalizeLow (Fin 180) = Some (Fin 180)" "normalizeHigh (Fin 180) = Some (Fin 180)"
  by (simp_all add: normalizeLow.simps normalizeHigh.simps float_eval)

lemma fs_example_open:
  "os_Open fs_example ''primary.wcs'' = Inr file_primary"
  "os_Open fs_example ''zero.wcs'' = Inr file_zero"
  "os_Open fs_example ''nan.wcs'' = Inr file_nan"
  "os_Open fs_example ''fallback.wcs'' = Inr file_fallback"
  "os_Open fs_example ''missing.wcs'' = Inl (PathError ''open'' ''missing.wcs'' 2)"
  by (simp_all add: os_Open_def fs_example_def)

lemma params_primary:
  "extractParams reflib (readRecords file_primary Map.empty) =
     \<lparr>crval1 = Fin 10, crval2 = Fin 0, crpix1 = Fin 0, crpix2 = Fin 0,
      cd11 = Fin 1, cd12 = Fin 0, cd21 = Fin 0, cd22 = Fin 0,
      imageW = Fin 100, imageH = Fin 100, hasWCS = True\<rparr>"
  by (simp add: header_primary extractParams_def lib_eval)

lemma params_zero:
  "extractParams reflib (readRecords file_zero Map.empty) =
     \<lparr>crval1 = Fin 0, crval2 = Fin 0, crpix1 = Fin 0, crpix2 = Fin 0,
      cd11 = Fin 0, cd12 = Fin 0, cd21 = Fin 0, cd22 = Fin 0,
      imageW = Fin 100, imageH = Fin 100, hasWCS = True\<rparr>"
  by (simp add: header_zero extractParams_def lib_eval)

lemma params_nan:
  "extractParams reflib (readRecords file_nan Map.empty) =
     \<lparr>crval1 = Fin 10, crval2 = Fin 0, crpix1 = Fin 0, crpix2 = Fin 0,
      cd11 = Fin 0, cd12 = NaN, cd21 = Fin 0, cd22 = Fin 0,
      imageW = Fin 100, imageH = Fin 100, hasWCS = True\<rparr>"
  by (simp add: header_nan extractParams_def lib_eval)

lemma params_fallback:
  "extractParams reflib (readRecords file_fallback Map.empty) =
     \<lparr>crval1 = Fin 0, crval2 = Fin 10, crpix1 = Fin 0, crpix2 = Fin 0,
      cd11 = Fin (- 1), cd12 = Fin 0, cd21 = Fin 0, cd22 = Fin 0,
      imageW = Fin 100, imageH = Fin 0, hasWCS = False\<rparr>"
  by (simp add: header_fallback extractParams_def lib_eval)

lemma fields_primary:
  "computeFields reflib (readRecords file_primary Map.empty) = Some
     \<lparr>Solved = True, RA = Fin 60, Dec = Fin 0, PixelScale = Fin 3600, Rotation = Fin 180,
      FieldWidth = Fin 200, FieldHeight = Fin 400,
      WCSHeader = readRecords file_primary Map.empty, OutputFiles = [],
      SolveTime = Fin 0, RawOutput = []\<rparr>"
  unfolding computeFields_def params_primary
  apply (simp add: Let_def transform_def usePrimary_def primaryPath_def float_eval Pi64_def newResult_def
      reflib_def Atan2_ref_values normalize_values)
  apply (simp add: Let_def fieldDimensions_def header_primary lib_eval float_eval)
  done

lemma fields_zero:
  "computeFields reflib (readRecords file_zero Map.empty) = Some
     \<lparr>Solved = True, RA = Fin 0, Dec = Fin 0, PixelScale = Fin 0, Rotation = Fin 180,
      FieldWidth = Fin 0, FieldHeight = Fin 0,
      WCSHeader = readRecords file_zero Map.empty, OutputFiles = [],
      SolveTime = Fin 0, RawOutput = []\<rparr>"
  unfolding computeFields_def params_zero
  apply (simp add: Let_def transform_def usePrimary_def primaryPath_def float_eval Pi64_def newResult_def
      reflib_def Atan2_ref_values normalize_values round64_zero)
  apply (simp add: Let_def fieldDimensions_def header_zero lib_eval float_eval)
  done

lemma fields_nan:
  "computeFields reflib (readRecords file_nan Map.empty) = Some
     \<lparr>Solved = True, RA = NaN, Dec = Fin 0, PixelScale = Fin 0, Rotation = NaN,
      FieldWidth = Fin 0, FieldHeight = Fin 0,
      WCSHeader = readRecords file_nan Map.empty, OutputFiles = [],
      SolveTime = Fin 0, RawOutput = []\<rparr>"
  unfolding computeFields_def params_nan
  apply (simp add: Let_def transform_def usePrimary_def primaryPath_def float_eval Pi64_def newResult_def
      reflib_def Atan2_ref_values normalizeLow_NaN normalizeHigh_NaN round64_zero)
  apply (simp add: Let_def fieldDimensions_def header_nan lib_eval float_eval)
  done

lemma fields_fallback:
  "computeFields reflib (readRecords file_fallback Map.empty) = Some
     \<lparr>Solved = True, RA = Fin 0, Dec = Fin 10, PixelScale = Fin 3600, Rotation = Fin 400,
      FieldWidth = Fin 100, FieldHeight = Fin 0,
      WCSHeader = readRecords file_fallback Map.empty, OutputFiles = [],
      SolveTime = Fin 0, RawOutput = []\<rparr>"
  unfolding computeFields_def params_fallback
  apply (simp add: Let_def transform_def usePrimary_def fallbackPath_def abs64_def float_eval newResult_def)
  apply (simp add: Let_def fieldDimensions_def header_fallback lib_eval float_eval)
  done

lemma parse_primary:
  "ParseWCSFile reflib fs_example ''primary.wcs'' = Some (Inr
     \<lparr>Solved = True, RA = Fin 60, Dec = Fin 0, PixelScale = Fin 3600, Rotation = Fin 180,
      FieldWidth = Fin 200, FieldHeight = Fin 400,
      WCSHeader = readRecords file_primary Map.empty, OutputFiles = [],
      SolveTime = Fin 0, RawOutput = []\<rparr>)"
  by (simp add: ParseWCSFile_opened [OF fs_example_open(1)] fields_primary validate_def
      allZero_def float_eval)

lemma parse_zero:
  "ParseWCSFile reflib fs_example ''zero.wcs'' =
     Some (Inl (Errorf ''%w: no valid WCS fields found'' ErrWCSParseFailed))"
  by (simp add: ParseWCSFile_opened [OF fs_example_open(2)] fields_zero validate_def
      allZero_def float_eval)

lemma parse_nan:
  "ParseWCSFile reflib fs_example ''nan.wcs'' = Some (Inr
     \<lparr>Solved = True, RA = NaN, Dec = Fin 0, PixelScale = Fin 0, Rotation = NaN,
      FieldWidth = Fin 0, FieldHeight = Fin 0,
      WCSHeader = readRecords file_nan Map.empty, OutputFiles = [],
      SolveTime = Fin 0, RawOutput = []\<rparr>)"
  by (simp add: ParseWCSFile_opened [OF fs_example_open(3)] fields_nan validate_def
      allZero_def float_eval)

lemma parse_fallback:
  "ParseWCSFile reflib fs_example ''fallback.wcs'' = Some (Inr
     \<lparr>Solved = True, RA = Fin 0, Dec = Fin 10, PixelScale = Fin 3600, Rotation = Fin 400,
      FieldWidth = Fin 100, FieldHeight = Fin 0,
      WCSHeader = readRecords file_fallback Map.empty, OutputFiles = [],
      SolveTime = Fin 0, RawOutput = []\<rparr>)"
  by (simp add: ParseWCSFile_opened [OF fs_example_open(4)] fields_fallback validate_def
      allZero_def float_eval)

subsection \<open>The gate\<close>

lemma getFloat_Some_iff:
  "getFloat L hdr key \<noteq> None \<longleftrightarrow> (\<exists>val v. hdr key = Some val \<and> ParseFloat L val = Some v)"
  by (auto simp: getFloat_def split: option.splits)

lemma usePrimary_extract:
  "usePrimary (extractParams L hdr) \<longleftrightarrow>
     getFloat L hdr ''CRVAL1'' \<noteq> None \<and>
     fgt (imageW (extractParams L hdr)) (Fin 0) \<and> fgt (imageH (extractParams L hdr)) (Fin 0)"
  by (simp add: usePrimary_def extractParams_def)

lemma extractParams_gate_keys:
  assumes "hdr' ''CRVAL1'' = hdr ''CRVAL1''" "hdr' ''IMAGEW'' = hdr ''IMAGEW''"
    "hdr' ''IMAGEH'' = hdr ''IMAGEH''" "hdr' ''NAXIS1'' = hdr ''NAXIS1''"
    "hdr' ''NAXIS2'' = hdr ''NAXIS2''"
  shows "usePrimary (extractParams L hdr') = usePrimary (extractParams L hdr)"
  using assms by (simp add: usePrimary_def extractParams_def getFloat_def split: option.splits)

lemma fgt_zero_not_zero: "fgt (Fin 0) (Fin 0) = False"
  by (simp add: fgt_def flt_def)

lemma missing_dimension:
  "hdr ''IMAGEW'' = None \<Longrightarrow> hdr ''NAXIS1'' = None \<Longrightarrow> imageW (extractParams L hdr) = Fin 0"
  "hdr ''IMAGEH'' = None \<Longrightarrow> hdr ''NAXIS2'' = None \<Longrightarrow> imageH (extractParams L hdr) = Fin 0"
  by (simp_all add: extractParams_def getFloat_def floatOrZero_def)

subsection \<open>What the function returns once the fields are computed\<close>

lemma computeFields_primary:
  assumes "atan2_ok (Atan2 L)" and "usePrimary (extractParams L hdr)"
  shows "\<exists>t. primaryPath L (extractParams L hdr) (newResult\<lparr>WCSHeader := hdr\<rparr>) = Some t \<and>
     computeFields L hdr = Some (fieldDimensions L t)"
  using primaryPath_result [OF assms(1), of "extractParams L hdr" "newResult\<lparr>WCSHeader := hdr\<rparr>"]
    assms(2)
  by (auto simp: computeFields_def transform_def)

lemma computeFields_fallback:
  assumes "\<not> usePrimary (extractParams L hdr)"
  shows "computeFields L hdr =
     Some (fieldDimensions L (fallbackPath L (extractParams L hdr) (newResult\<lparr>WCSHeader := hdr\<rparr>)))"
  using assms by (simp add: computeFields_def transform_def)

lemma ParseWCSFile_computed:
  assumes "fs wcsPath = Inr content" and "computeFields L (readRecords content Map.empty) = Some res"
  shows "ParseWCSFile L fs wcsPath =
     Some (if feq (RA res) (Fin 0) \<and> feq (Dec res) (Fin 0) \<and> feq (PixelScale res) (Fin 0)
           then Inl (Errorf ''%w: no valid WCS fields found'' ErrWCSParseFailed)
           else Inr res)"
proof -
  have "os_Open fs wcsPath = Inr content" using assms(1) by (simp add: os_Open_iff)
  then show ?thesis using assms(2) by (simp add: ParseWCSFile_opened validate_def allZero_def)
qed

lemma extractParams_fields:
  "crval1 (extractParams L hdr) = floatOrZero (getFloat L hdr ''CRVAL1'')"
  "crval2 (extractParams L hdr) = floatOrZero (getFloat L hdr ''CRVAL2'')"
  "crpix1 (extractParams L hdr) = floatOrZero (getFloat L hdr ''CRPIX1'')"
  "crpix2 (extractParams L hdr) = floatOrZero (getFloat L hdr ''CRPIX2'')"
  "cd11 (extractParams L hdr) = floatOrZero (getFloat L hdr ''CD1_1'')"
  "cd12 (extractParams L hdr) = floatOrZero (getFloat L hdr ''CD1_2'')"
  "cd21 (extractParams L hdr) = floatOrZero (getFloat L hdr ''CD2_1'')"
  "cd22 (extractParams L hdr) = floatOrZero (getFloat L hdr ''CD2_2'')"
  by (simp_all add: extractParams_def)

subsection \<open>The field dimensions and the rotation\<close>

lemma fieldDimensions_width:
  "FieldWidth (fieldDimensions L r) =
     (if fgt (PixelScale r) (Fin 0)
      then (case getFloat L (WCSHeader r) ''NAXIS1'' of
              Some w \<Rightarrow> fdiv (fmul w (PixelScale r)) (Fin 3600)
            | None \<Rightarrow>
                (case getFloat L (WCSHeader r) ''IMAGEW'' of
                   Some w \<Rightarrow> fdiv (fmul w (PixelScale r)) (Fin 3600)
                 | None \<Rightarrow> FieldWidth r))
      else FieldWidth r)"
  by (simp add: fieldDimensions_def Let_def split: option.splits)

lemma fieldDimensions_height:
  "FieldHeight (fieldDimensions L r) =
     (if fgt (PixelScale r) (Fin 0)
      then (case getFloat L (WCSHeader r) ''NAXIS2'' of
              Some h \<Rightarrow> fdiv (fmul h (PixelScale r)) (Fin 3600)
            | None \<Rightarrow>
                (case getFloat L (WCSHeader r) ''IMAGEH'' of
                   Some h \<Rightarrow> fdiv (fmul h (PixelScale r)) (Fin 3600)
                 | None \<Rightarrow> FieldHeight r))
      else FieldHeight r)"
  by (simp add: fieldDimensions_def Let_def split: option.splits)

lemma transform_keeps:
  assumes "transform L p result = Some t"
  shows "WCSHeader t = WCSHeader result" "FieldWidth t = FieldWidth result"
    "FieldHeight t = FieldHeight result" "Solved t = Solved result"
  using assms primaryPath_keeps(1-4) [of L p result t]
  by (auto simp: transform_def fallbackPath_keeps split: if_splits)

lemma computeFields_SomeD:
  assumes "computeFields L hdr = Some res"
  obtains t where "transform L (extractParams L hdr) (newResult\<lparr>WCSHeader := hdr\<rparr>) = Some t"
    and "res = fieldDimensions L t" and "WCSHeader t = hdr"
    and "FieldWidth t = Fin 0" and "FieldHeight t = Fin 0"
proof -
  from assms obtain t where
    t: "transform L (extractParams L hdr) (newResult\<lparr>WCSHeader := hdr\<rparr>) = Some t"
    and r: "res = fieldDimensions L t"
    by (auto simp: computeFields_def split: option.splits)
  from transform_keeps [OF t] have "WCSHeader t = hdr" "FieldWidth t = Fin 0" "FieldHeight t = Fin 0"
    by (simp_all add: newResult_def)
  with t r that show ?thesis by blast
qed

lemma fallbackPath_rotation:
  "Rotation (fallbackPath L p result) = Rotation result \<or>
   (\<exists>val. WCSHeader result ''CROTA2'' = Some val \<and>
      ParseFloat L val = Some (Rotation (fallbackPath L p result)))"
  by (auto simp: fallbackPath_def Let_def getFloat_def split: option.splits)

lemma in_range_iff:
  "isFinite r \<Longrightarrow> (fge r (Fin 0) \<and> flt r (Fin 360)) = (0 \<le> fval r \<and> fval r < 360)"
  by (auto simp: fge_def flt_def feq_def isFinite_def)

subsection \<open>The reading loop and the specification of the reader\<close>

lemma find_SomeD: "find P xs = Some x \<Longrightarrow> x \<in> set xs \<and> P x"
  by (induction xs) (auto split: if_splits)

lemma runeWidth_pos:
  assumes "runeWidth rs s \<noteq> 0"
  obtains r where "r \<in> set rs" "r \<noteq> []" "take (length r) s = r" "runeWidth rs s = length r"
  using assms
  by (auto simp: runeWidth_def split: option.splits dest: find_SomeD)

lemma runeWidth_zero_iff:
  "runeWidth rs s = 0 \<longleftrightarrow> (\<forall>r \<in> set rs. r \<noteq> [] \<longrightarrow> take (length r) s \<noteq> r)"
  by (auto simp: runeWidth_def find_None_iff split: option.splits dest: find_SomeD)

lemma runeWidth_cong:
  assumes "\<And>r. r \<in> set rs \<Longrightarrow> (take (length r) s = r) = (take (length r) s' = r)"
  shows "runeWidth rs s = runeWidth rs s'"
proof -
  have "find (\<lambda>r. r \<noteq> [] \<and> take (length r) s = r) rs =
      find (\<lambda>r. r \<noteq> [] \<and> take (length r) s' = r) rs"
    using assms by (intro find_cong) auto
  then show ?thesis by (simp add: runeWidth_def)
qed

lemma stripRunes_fixed: "runeWidth rs s = 0 \<Longrightarrow> stripRunes rs s = s"
  by (subst stripRunes.simps) simp

lemma runeWidth_stripRunes: "runeWidth rs (stripRunes rs s) = 0"
proof (induction rs s rule: stripRunes.induct)
  case (1 rs s)
  then show ?case by (subst stripRunes.simps) auto
qed

lemma stripRunes_idem: "stripRunes rs (stripRunes rs s) = stripRunes rs s"
  by (simp add: stripRunes_fixed runeWidth_stripRunes)

text \<open>What is stripped is a prefix made of the given sequences.\<close>

lemma stripRunes_drop:
  assumes "\<forall>r \<in> set rs. c \<notin> set r"
  shows "\<exists>n. stripRunes rs s = drop n s \<and> c \<notin> set (take n s)"
  using assms
proof (induction rs s rule: stripRunes.induct)
  case (1 rs s)
  note assms = "1.prems"
  show ?case
  proof (cases "runeWidth rs s = 0")
    case True
    then have "stripRunes rs s = drop 0 s \<and> c \<notin> set (take 0 s)" by (simp add: stripRunes_fixed)
    then show ?thesis by blast
  next
    case False
    then obtain r where r: "r \<in> set rs" "take (length r) s = r" "runeWidth rs s = length r"
      by (rule runeWidth_pos)
    from 1 False obtain n where
      n: "stripRunes rs (drop (runeWidth rs s) s) = drop n (drop (runeWidth rs s) s)"
        "c \<notin> set (take n (drop (runeWidth rs s) s))"
      by blast
    have s: "s = r @ drop (length r) s" using r(2) by (metis append_take_drop_id)
    have "take (n + length r) s = r @ take n (drop (length r) s)"
      by (subst s) (simp add: take_add r(2))
    moreover have "c \<notin> set r" using r(1) assms by blast
    ultimately have "c \<notin> set (take (n + length r) s)"
      using n(2) r(3) by simp
    moreover have "stripRunes rs s = drop (n + length r) s"
      using False n(1) r(3) by (subst stripRunes.simps) (simp add: add.commute)
    ultimately show ?thesis by blast
  qed
qed


text \<open>Cutting a string at its first occurrence of a byte that no sequence contains.\<close>

lemma take_takeWhile_iff:
  assumes "\<forall>x \<in> set r. P x"
  shows "(take (length r) (takeWhile P s) = r) = (take (length r) s = r)"
proof
  assume h: "take (length r) (takeWhile P s) = r"
  then have "length r = min (length (takeWhile P s)) (length r)"
    by (metis length_take)
  then have "length r \<le> length (takeWhile P s)" by simp
  then have "take (length r) (takeWhile P s @ dropWhile P s) = take (length r) (takeWhile P s)"
    by (simp del: takeWhile_dropWhile_id)
  then show "take (length r) s = r" using h by simp
next
  assume h: "take (length r) s = r"
  then have "s = r @ drop (length r) s" by (metis append_take_drop_id)
  then have "takeWhile P s = r @ takeWhile P (drop (length r) s)"
    using assms by (metis takeWhile_append2)
  then show "take (length r) (takeWhile P s) = r" by simp
qed

lemma runeWidth_takeWhile:
  assumes "\<forall>r \<in> set rs. \<forall>x \<in> set r. P x"
  shows "runeWidth rs (takeWhile P s) = runeWidth rs s"
  using assms by (intro runeWidth_cong take_takeWhile_iff) blast

lemma drop_takeWhile_prefix:
  assumes "take (length r) s = r" "\<forall>x \<in> set r. P x"
  shows "drop (length r) (takeWhile P s) = takeWhile P (drop (length r) s)"
proof -
  have "s = r @ drop (length r) s" using assms(1) by (metis append_take_drop_id)
  then have "takeWhile P s = r @ takeWhile P (drop (length r) s)"
    using assms(2) by (metis takeWhile_append2)
  then show ?thesis by simp
qed

lemma stripRunes_takeWhile:
  assumes "\<forall>r \<in> set rs. \<forall>x \<in> set r. P x"
  shows "stripRunes rs (takeWhile P s) = takeWhile P (stripRunes rs s)"
  using assms
proof (induction rs s rule: stripRunes.induct)
  case (1 rs s)
  have w: "runeWidth rs (takeWhile P s) = runeWidth rs s"
    using "1.prems" by (rule runeWidth_takeWhile)
  show ?case
  proof (cases "runeWidth rs s = 0")
    case True
    then show ?thesis using w by (simp add: stripRunes_fixed)
  next
    case False
    then obtain r where r: "r \<in> set rs" "take (length r) s = r" "runeWidth rs s = length r"
      by (rule runeWidth_pos)
    have d: "drop (length r) (takeWhile P s) = takeWhile P (drop (length r) s)"
      using r(2) "1.prems" r(1) by (intro drop_takeWhile_prefix) blast+
    have "stripRunes rs (takeWhile P s) = stripRunes rs (drop (length r) (takeWhile P s))"
      using False w r(3) by (subst stripRunes.simps) simp
    also have "\<dots> = takeWhile P (stripRunes rs (drop (length r) s))"
      using "1.IH" [OF False "1.prems"] by (simp add: d r(3))
    also have "stripRunes rs (drop (length r) s) = stripRunes rs s"
      using False r(3) by (subst (2) stripRunes.simps) simp
    finally show ?thesis .
  qed
qed

lemma runeWidth_take:
  assumes "runeWidth rs s = 0"
  shows "runeWidth rs (take m s) = 0"
  unfolding runeWidth_zero_iff
proof (intro ballI impI notI)
  fix r assume r: "r \<in> set rs" "r \<noteq> []" "take (length r) (take m s) = r"
  then have "length r = min (length (take m s)) (length r)"
    by (metis length_take)
  then have "length r \<le> m" by simp
  then have "take (length r) s = r" using r(3) by (simp add: min_def)
  then show False using assms r(1,2) by (simp add: runeWidth_zero_iff)
qed

text \<open>\<^verbatim>\<open>TrimSpace\<close> and the removal of the comment.\<close>

lemma spaceRunes_no_slash:
  "\<forall>r \<in> set spaceRunes. \<forall>x \<in> set r. x \<noteq> CHR ''/''"
  "\<forall>r \<in> set (map rev spaceRunes). \<forall>x \<in> set r. x \<noteq> CHR ''/''"
  by (simp_all add: spaceRunes_def)

lemma TrimRightSpace_take:
  "\<exists>m. TrimRightSpace u = take m u \<and> CHR ''/'' \<notin> set (drop m u)"
proof -
  have "\<forall>r \<in> set (map rev spaceRunes). CHR ''/'' \<notin> set r"
    using spaceRunes_no_slash(2) by blast
  from stripRunes_drop [OF this, of "rev u"] obtain n where
    n: "stripRunes (map rev spaceRunes) (rev u) = drop n (rev u)"
      "CHR ''/'' \<notin> set (take n (rev u))"
    by blast
  have "TrimRightSpace u = take (length u - n) u"
    by (simp add: TrimRightSpace_def n(1) rev_drop)
  moreover have "set (drop (length u - n) u) = set (take n (rev u))"
    by (simp add: take_rev)
  ultimately show ?thesis using n(2) by blast
qed

lemma TrimRightSpace_idem: "TrimRightSpace (TrimRightSpace s) = TrimRightSpace s"
  by (simp add: TrimRightSpace_def stripRunes_idem)

lemma TrimSpace_cut:
  "TrimSpace (takeWhile (\<lambda>c. c \<noteq> CHR ''/'') (TrimSpace s)) =
   TrimSpace (takeWhile (\<lambda>c. c \<noteq> CHR ''/'') s)"
proof -
  let ?cut = "takeWhile (\<lambda>c. c \<noteq> CHR ''/'')"
  define u where "u = TrimLeftSpace s"
  have u0: "runeWidth spaceRunes u = 0"
    by (simp add: u_def TrimLeftSpace_def runeWidth_stripRunes)
  obtain m where m: "TrimRightSpace u = take m u" "CHR ''/'' \<notin> set (drop m u)"
    using TrimRightSpace_take by blast
  have comm: "\<And>x. TrimLeftSpace (?cut x) = ?cut (TrimLeftSpace x)"
    unfolding TrimLeftSpace_def using spaceRunes_no_slash(1) by (rule stripRunes_takeWhile)
  have "TrimLeftSpace (TrimRightSpace u) = TrimRightSpace u"
    unfolding m(1) TrimLeftSpace_def using u0 by (intro stripRunes_fixed runeWidth_take)
  then have l: "TrimLeftSpace (?cut (TrimRightSpace u)) = ?cut (TrimRightSpace u)"
    by (simp add: comm)
  have c: "TrimRightSpace (?cut (TrimRightSpace u)) = TrimRightSpace (?cut u)"
  proof (cases "CHR ''/'' \<in> set u")
    case True
    then have "CHR ''/'' \<in> set (take m u)"
      using m(2) by (metis Un_iff append_take_drop_id set_append)
    then have "?cut (take m u @ drop m u) = ?cut (take m u)"
      by (intro takeWhile_append1 [where x = "CHR ''/''"]) simp_all
    then show ?thesis by (simp add: m(1))
  next
    case False
    then have cu: "?cut u = u" by (simp add: takeWhile_eq_all_conv) blast
    have "CHR ''/'' \<notin> set (take m u)" using False by (meson in_set_takeD)
    then have "?cut (take m u) = take m u" by (simp add: takeWhile_eq_all_conv) blast
    then have "?cut (TrimRightSpace u) = TrimRightSpace u" by (simp only: m(1))
    then show ?thesis by (simp only: cu TrimRightSpace_idem)
  qed
  have "TrimSpace (?cut (TrimSpace s)) = TrimRightSpace (TrimLeftSpace (?cut (TrimRightSpace u)))"
    by (simp add: TrimSpace_def u_def)
  also have "\<dots> = TrimRightSpace (?cut u)" by (simp add: l c)
  also have "\<dots> = TrimSpace (?cut s)" by (simp add: TrimSpace_def comm u_def)
  finally show ?thesis .
qed


text \<open>One record, and the loop over the records.\<close>

lemma cut_by_Index:
  "(if Index v (CHR ''/'') \<noteq> - 1 then take (nat (Index v (CHR ''/''))) v else v) =
   takeWhile (\<lambda>c. c \<noteq> CHR ''/'') v"
proof (cases "CHR ''/'' \<in> set v")
  case True
  then show ?thesis by (simp add: Index_def takeWhile_eq_take [symmetric])
next
  case False
  then have e: "takeWhile (\<lambda>c. c \<noteq> CHR ''/'') v = v" by (simp add: takeWhile_eq_all_conv) blast
  show ?thesis unfolding e using False by (simp add: Index_def)
qed

lemma parseLine_spec: "parseLine line = spec_record line"
proof (cases "HasPrefix line ''END'' \<or> CHR ''='' \<notin> set line")
  case True
  then show ?thesis
    by (auto simp: parseLine_def spec_record_def SplitN2_def)
next
  case False
  then have ne: "line \<noteq> []" by auto
  have "parseLine line =
      Some (TrimSpace (takeWhile (\<lambda>c. c \<noteq> CHR ''='') line),
            TrimSpace (Trim (TrimSpace
              (takeWhile (\<lambda>c. c \<noteq> CHR ''/'')
                 (TrimSpace (tl (dropWhile (\<lambda>c. c \<noteq> CHR ''='') line))))) (CHR 0x27)))"
    using False ne by (simp add: parseLine_def SplitN2_def Let_def cut_by_Index)
  then show ?thesis using False
    by (simp add: spec_record_def spec_key_def spec_value_def Let_def TrimSpace_cut)
qed

lemma records80_short: "length bytes < 80 \<Longrightarrow> records80 bytes = []"
  by (subst records80.simps) simp

lemma records80_step:
  "\<not> length bytes < 80 \<Longrightarrow> records80 bytes = take 80 bytes # records80 (drop 80 bytes)"
  by (subst records80.simps) simp

lemma readRecords_spec:
  "readRecords bytes hdr = hdr ++ map_of (rev (List.map_filter spec_record (records80 bytes)))"
proof (induction bytes hdr rule: readRecords.induct)
  case (1 bytes hdr)
  show ?case
  proof (cases "length bytes < 80")
    case True
    then have "readRecords bytes hdr = hdr" by (subst readRecords.simps) simp
    then show ?thesis using True by (simp add: records80_short map_filter_simps)
  next
    case False
    then have full: "\<not> length (take 80 bytes) \<noteq> 80" by simp
    show ?thesis
    proof (cases "spec_record (take 80 bytes)")
      case None
      then have p: "parseLine (take 80 bytes) = None" by (simp add: parseLine_spec)
      have "readRecords bytes hdr = readRecords (drop 80 bytes) hdr"
        using False p by (subst readRecords.simps) simp
      then show ?thesis
        using "1.IH"(1) [OF full p] False None by (simp add: records80_step map_filter_simps)
    next
      case (Some kv)
      obtain key valuePart where kv: "kv = (key, valuePart)" by (cases kv)
      have p: "parseLine (take 80 bytes) = Some (key, valuePart)"
        using Some kv by (simp add: parseLine_spec)
      have "readRecords bytes hdr = readRecords (drop 80 bytes) (hdr(key \<mapsto> valuePart))"
        using False p by (subst readRecords.simps) simp
      also have "\<dots> = hdr(key \<mapsto> valuePart) ++
          map_of (rev (List.map_filter spec_record (records80 (drop 80 bytes))))"
        using "1.IH"(2) [OF full p refl] by (simp add: fun_upd_def)
      also have "\<dots> = hdr ++
          map_of (rev (List.map_filter spec_record (records80 bytes)))"
        using False Some kv
        by (simp add: records80_step map_filter_simps)
      finally show ?thesis .
    qed
  qed
qed

section \<open>The claims\<close>

text \<open>
  C8. A path that cannot be opened: \<^verbatim>\<open>ParseWCSFile\<close> returns no result but the error of
  \<^verbatim>\<open>os.Open\<close> wrapped as an I/O failure. A caller tells it from the parse failure with
  \<^verbatim>\<open>errors.Is\<close>: every error of the final check is \<open>ErrWCSParseFailed\<close>, this one is not.
\<close>

theorem open_failure_distinct:
  assumes "fs wcsPath = Inl errno"
  shows "ParseWCSFile L fs wcsPath =
       Some (Inl (Errorf ''failed to open WCS file: %w'' (PathError ''open'' wcsPath errno))) \<and>
     \<not> errors_Is (Errorf ''failed to open WCS file: %w'' (PathError ''open'' wcsPath errno))
         ErrWCSParseFailed \<and>
     (\<forall>result err. validate result = Inl err \<longrightarrow>
        errors_Is err ErrWCSParseFailed \<and>
        err \<noteq> Errorf ''failed to open WCS file: %w'' (PathError ''open'' wcsPath errno))"
  using assms by (auto simp: ParseWCSFile_def os_Open_def validate_def)

theorem open_failure_distinct_witness:
  "ParseWCSFile reflib fs_example ''missing.wcs'' =
       Some (Inl (Errorf ''failed to open WCS file: %w'' (PathError ''open'' ''missing.wcs'' 2))) \<and>
   \<not> errors_Is (Errorf ''failed to open WCS file: %w'' (PathError ''open'' ''missing.wcs'' 2))
       ErrWCSParseFailed \<and>
   validate (newResult\<lparr>WCSHeader := Map.empty\<rparr>) =
       Inl (Errorf ''%w: no valid WCS fields found'' ErrWCSParseFailed) \<and>
   errors_Is (Errorf ''%w: no valid WCS fields found'' ErrWCSParseFailed) ErrWCSParseFailed"
proof -
  have h: "fs_example ''missing.wcs'' = Inl 2" by (simp add: fs_example_def)
  have v: "validate (newResult\<lparr>WCSHeader := Map.empty\<rparr>) =
       Inl (Errorf ''%w: no valid WCS fields found'' ErrWCSParseFailed)"
    by (simp add: validate_def allZero_def newResult_def feq_def isFinite_def)
  from open_failure_distinct [where fs = fs_example and wcsPath = "''missing.wcs''" and L = reflib, OF h] v
  show ?thesis by simp
qed

text \<open>
  C10. Every result that \<^verbatim>\<open>ParseWCSFile\<close> returns has \<open>Solved\<close> set: the flag is set when
  the result is built and no path changes it.
\<close>

theorem returned_result_solved:
  assumes "ParseWCSFile L fs wcsPath = Some (Inr r)"
  shows "Solved r"
proof -
  from assms obtain content t where
    t: "transform L (extractParams L (readRecords content Map.empty))
           (newResult\<lparr>WCSHeader := readRecords content Map.empty\<rparr>) = Some t"
    and r: "r = fieldDimensions L t"
    by (rule ParseWCSFile_InrD)
  have "Solved t"
    using t primaryPath_keeps(1) [of L _ _ t]
    by (auto simp: transform_def fallbackPath_keeps newResult_def split: if_splits)
  then show ?thesis by (simp add: r fieldDimensions_keeps)
qed

theorem returned_result_solved_witness:
  "\<exists>r. ParseWCSFile reflib fs_example ''primary.wcs'' = Some (Inr r) \<and> Solved r"
  using returned_result_solved [OF parse_primary] parse_primary by simp

text \<open>
  C9. The pixel scale of a returned result is never below zero: on the primary path it is
  a square root times 3600, on the fallback path an absolute value times 3600 or the zero
  the result was built with.
\<close>

theorem pixel_scale_not_negative:
  assumes "ParseWCSFile L fs wcsPath = Some (Inr r)"
  shows "\<not> flt (PixelScale r) (Fin 0) \<and>
     (\<exists>content p. fs wcsPath = Inr content \<and> p = extractParams L (readRecords content Map.empty) \<and>
        (if usePrimary p
         then PixelScale r =
                fmul (fsqrt (fadd (fmul (cd11 p) (cd11 p)) (fmul (cd21 p) (cd21 p)))) (Fin 3600)
         else PixelScale r = fmul (abs64 (cd11 p)) (Fin 3600) \<or> PixelScale r = Fin 0))"
proof -
  from assms obtain content t where
    c: "fs wcsPath = Inr content"
    and t: "transform L (extractParams L (readRecords content Map.empty))
           (newResult\<lparr>WCSHeader := readRecords content Map.empty\<rparr>) = Some t"
    and r: "r = fieldDimensions L t"
    by (rule ParseWCSFile_InrD)
  define p where "p = extractParams L (readRecords content Map.empty)"
  have ps: "PixelScale r = PixelScale t" by (simp add: r fieldDimensions_keeps)
  have shape: "if usePrimary p
     then PixelScale t =
            fmul (fsqrt (fadd (fmul (cd11 p) (cd11 p)) (fmul (cd21 p) (cd21 p)))) (Fin 3600)
     else PixelScale t = fmul (abs64 (cd11 p)) (Fin 3600) \<or> PixelScale t = Fin 0"
    using t primaryPath_keeps(5) [of L p _ t] unfolding p_def [symmetric]
    by (auto simp: transform_def fallbackPath_keeps newResult_def split: if_splits)
  have "\<not> flt (PixelScale t) (Fin 0)"
  proof (cases "usePrimary p")
    case True
    then show ?thesis using shape fmul_3600_not_neg [OF fsqrt_not_neg] by simp
  next
    case False
    then have "PixelScale t = fmul (abs64 (cd11 p)) (Fin 3600) \<or> PixelScale t = Fin 0"
      using shape by simp
    then show ?thesis
    proof
      assume "PixelScale t = fmul (abs64 (cd11 p)) (Fin 3600)"
      then show ?thesis using fmul_3600_not_neg [OF abs64_not_neg] by simp
    next
      assume "PixelScale t = Fin 0"
      then show ?thesis by (simp add: flt_def)
    qed
  qed
  then show ?thesis using c shape ps p_def by auto
qed

theorem pixel_scale_not_negative_witness:
  "\<exists>r. ParseWCSFile reflib fs_example ''fallback.wcs'' = Some (Inr r) \<and>
       PixelScale r = Fin 3600 \<and> \<not> flt (PixelScale r) (Fin 0)"
  using pixel_scale_not_negative [OF parse_fallback] parse_fallback by simp

text \<open>
  C2. Once the file is open and the fields are computed, \<^verbatim>\<open>ParseWCSFile\<close> returns the
  parse failure exactly when \<open>RA\<close>, \<open>Dec\<close> and \<open>PixelScale\<close> all compare equal to zero, and
  the computed result otherwise; so no returned result has all three zero.
\<close>

theorem parse_failure_iff_all_zero:
  assumes "atan2_ok (Atan2 L)" and "fs wcsPath = Inr content"
  shows "\<exists>res. computeFields L (readRecords content Map.empty) = Some res \<and>
     (ParseWCSFile L fs wcsPath =
          Some (Inl (Errorf ''%w: no valid WCS fields found'' ErrWCSParseFailed)) \<longleftrightarrow>
        feq (RA res) (Fin 0) \<and> feq (Dec res) (Fin 0) \<and> feq (PixelScale res) (Fin 0)) \<and>
     (ParseWCSFile L fs wcsPath = Some (Inr res) \<longleftrightarrow>
        \<not> (feq (RA res) (Fin 0) \<and> feq (Dec res) (Fin 0) \<and> feq (PixelScale res) (Fin 0))) \<and>
     (\<forall>r. ParseWCSFile L fs wcsPath = Some (Inr r) \<longrightarrow>
        \<not> (feq (RA r) (Fin 0) \<and> feq (Dec r) (Fin 0) \<and> feq (PixelScale r) (Fin 0)))"
proof -
  from computeFields_total [OF assms(1)] obtain res where
    res: "computeFields L (readRecords content Map.empty) = Some res" by blast
  have "os_Open fs wcsPath = Inr content" using assms(2) by (simp add: os_Open_iff)
  then have "ParseWCSFile L fs wcsPath = Some (validate res)"
    using res by (simp add: ParseWCSFile_opened)
  then show ?thesis using res by (auto simp: validate_def allZero_def)
qed

theorem parse_failure_iff_all_zero_witness:
  "ParseWCSFile reflib fs_example ''zero.wcs'' =
       Some (Inl (Errorf ''%w: no valid WCS fields found'' ErrWCSParseFailed)) \<and>
   (\<exists>res. computeFields reflib (readRecords file_zero Map.empty) = Some res \<and>
      feq (RA res) (Fin 0) \<and> feq (Dec res) (Fin 0) \<and> feq (PixelScale res) (Fin 0))"
proof -
  have a: "atan2_ok (Atan2 reflib)" by (simp add: reflib_def Atan2_ref_ok)
  have f: "fs_example ''zero.wcs'' = Inr file_zero" by (simp add: fs_example_def)
  from parse_failure_iff_all_zero [where fs = fs_example and wcsPath = "''zero.wcs''", OF a f] parse_zero
  show ?thesis by auto
qed


text \<open>
  C3. Only \<open>CRVAL1\<close> gates the transform: the primary path is taken exactly when \<open>CRVAL1\<close>
  is present and parses and both extracted image dimensions are above zero. The keys
  \<open>CRVAL2\<close>, \<open>CRPIX1\<close>, \<open>CRPIX2\<close> and those of the CD matrix have no part in the choice: two
  headers that agree on \<open>CRVAL1\<close> and on the four dimension keys take the same path.
\<close>

theorem only_CRVAL1_gates:
  "(usePrimary (extractParams L hdr) \<longleftrightarrow>
      (\<exists>val v. hdr ''CRVAL1'' = Some val \<and> ParseFloat L val = Some v) \<and>
      fgt (imageW (extractParams L hdr)) (Fin 0) \<and> fgt (imageH (extractParams L hdr)) (Fin 0)) \<and>
   transform L (extractParams L hdr) result =
     (if (\<exists>val v. hdr ''CRVAL1'' = Some val \<and> ParseFloat L val = Some v) \<and>
         fgt (imageW (extractParams L hdr)) (Fin 0) \<and> fgt (imageH (extractParams L hdr)) (Fin 0)
      then primaryPath L (extractParams L hdr) result
      else Some (fallbackPath L (extractParams L hdr) result)) \<and>
   ((\<forall>key \<in> {''CRVAL1'', ''IMAGEW'', ''IMAGEH'', ''NAXIS1'', ''NAXIS2''}. hdr' key = hdr key) \<longrightarrow>
      usePrimary (extractParams L hdr') = usePrimary (extractParams L hdr))"
proof -
  have g: "usePrimary (extractParams L hdr) \<longleftrightarrow>
      (\<exists>val v. hdr ''CRVAL1'' = Some val \<and> ParseFloat L val = Some v) \<and>
      fgt (imageW (extractParams L hdr)) (Fin 0) \<and> fgt (imageH (extractParams L hdr)) (Fin 0)"
    by (simp only: usePrimary_extract getFloat_Some_iff)
  have t: "transform L (extractParams L hdr) result =
     (if usePrimary (extractParams L hdr)
      then primaryPath L (extractParams L hdr) result
      else Some (fallbackPath L (extractParams L hdr) result))"
    by (simp add: transform_def)
  have f: "(\<forall>key \<in> {''CRVAL1'', ''IMAGEW'', ''IMAGEH'', ''NAXIS1'', ''NAXIS2''}. hdr' key = hdr key) \<longrightarrow>
      usePrimary (extractParams L hdr') = usePrimary (extractParams L hdr)"
    by (intro impI extractParams_gate_keys) simp_all
  from g t f show ?thesis by (simp only: simp_thms)
qed

theorem only_CRVAL1_gates_witness:
  "usePrimary (extractParams reflib (readRecords file_primary Map.empty)) \<and>
   readRecords file_primary Map.empty ''CRVAL2'' = None \<and>
   readRecords file_primary Map.empty ''CRPIX1'' = None \<and>
   readRecords file_primary Map.empty ''CD2_2'' = None \<and>
   usePrimary (extractParams reflib ((readRecords file_primary Map.empty)(''CD1_1'' := None)))"
proof -
  have u: "usePrimary (extractParams reflib (readRecords file_primary Map.empty))"
    by (simp add: params_primary usePrimary_def fgt_def flt_def isFinite_def)
  have "\<forall>key \<in> {''CRVAL1'', ''IMAGEW'', ''IMAGEH'', ''NAXIS1'', ''NAXIS2''}.
      ((readRecords file_primary Map.empty)(''CD1_1'' := None)) key = readRecords file_primary Map.empty key"
    by simp
  with only_CRVAL1_gates [of reflib "readRecords file_primary Map.empty" newResult
      "(readRecords file_primary Map.empty)(''CD1_1'' := None)"] u
  show ?thesis by (simp add: header_primary)
qed

text \<open>
  C1, as amended. When \<open>CRVAL1\<close> is present and parses and both extracted image dimensions
  are above zero, the primary path runs and computes
  \<open>RA = crval1 + (cd11 * dx + cd12 * dy)\<close>, \<open>Dec = crval2 + (cd21 * dx + cd22 * dy)\<close> with
  \<open>dx = imageW / 2 - crpix1\<close>, \<open>dy = imageH / 2 - crpix2\<close>, and
  \<open>PixelScale = sqrt (cd11 * cd11 + cd21 * cd21) * 3600\<close>, each value the parsed header
  value or zero. \<^verbatim>\<open>ParseWCSFile\<close> returns the result with these fields unless all three
  compare equal to zero: then it returns the parse failure.
\<close>

theorem primary_path_fields:
  assumes "atan2_ok (Atan2 L)" and "fs wcsPath = Inr content"
    and "hdr = readRecords content Map.empty" and "p = extractParams L hdr"
    and "\<exists>val v. hdr ''CRVAL1'' = Some val \<and> ParseFloat L val = Some v"
    and "fgt (imageW p) (Fin 0)" and "fgt (imageH p) (Fin 0)"
  shows "transform L p (newResult\<lparr>WCSHeader := hdr\<rparr>) =
       primaryPath L p (newResult\<lparr>WCSHeader := hdr\<rparr>) \<and>
     (\<exists>res. computeFields L hdr = Some res \<and>
        RA res = fadd (crval1 p)
          (fadd (fmul (cd11 p) (fsub (fdiv (imageW p) (Fin 2)) (crpix1 p)))
                (fmul (cd12 p) (fsub (fdiv (imageH p) (Fin 2)) (crpix2 p)))) \<and>
        Dec res = fadd (crval2 p)
          (fadd (fmul (cd21 p) (fsub (fdiv (imageW p) (Fin 2)) (crpix1 p)))
                (fmul (cd22 p) (fsub (fdiv (imageH p) (Fin 2)) (crpix2 p)))) \<and>
        PixelScale res =
          fmul (fsqrt (fadd (fmul (cd11 p) (cd11 p)) (fmul (cd21 p) (cd21 p)))) (Fin 3600) \<and>
        ParseWCSFile L fs wcsPath =
          Some (if feq (RA res) (Fin 0) \<and> feq (Dec res) (Fin 0) \<and> feq (PixelScale res) (Fin 0)
                then Inl (Errorf ''%w: no valid WCS fields found'' ErrWCSParseFailed)
                else Inr res)) \<and>
     crval1 p = floatOrZero (getFloat L hdr ''CRVAL1'') \<and>
     crval2 p = floatOrZero (getFloat L hdr ''CRVAL2'') \<and>
     crpix1 p = floatOrZero (getFloat L hdr ''CRPIX1'') \<and>
     crpix2 p = floatOrZero (getFloat L hdr ''CRPIX2'') \<and>
     cd11 p = floatOrZero (getFloat L hdr ''CD1_1'') \<and>
     cd12 p = floatOrZero (getFloat L hdr ''CD1_2'') \<and>
     cd21 p = floatOrZero (getFloat L hdr ''CD2_1'') \<and>
     cd22 p = floatOrZero (getFloat L hdr ''CD2_2'')"
proof -
  have "getFloat L hdr ''CRVAL1'' \<noteq> None"
    using assms(5) by (simp only: getFloat_Some_iff)
  then have u: "usePrimary (extractParams L hdr)"
    using assms(4,6,7) by (simp only: usePrimary_extract simp_thms)
  then have t: "transform L p (newResult\<lparr>WCSHeader := hdr\<rparr>) =
       primaryPath L p (newResult\<lparr>WCSHeader := hdr\<rparr>)"
    by (simp add: transform_def assms(4))
  from primaryPath_result [OF assms(1), of p "newResult\<lparr>WCSHeader := hdr\<rparr>"]
  obtain rot where pp: "primaryPath L p (newResult\<lparr>WCSHeader := hdr\<rparr>) =
     Some (newResult\<lparr>WCSHeader := hdr,
        RA := fadd (crval1 p)
          (fadd (fmul (cd11 p) (fsub (fdiv (imageW p) (Fin 2)) (crpix1 p)))
                (fmul (cd12 p) (fsub (fdiv (imageH p) (Fin 2)) (crpix2 p)))),
        Dec := fadd (crval2 p)
          (fadd (fmul (cd21 p) (fsub (fdiv (imageW p) (Fin 2)) (crpix1 p)))
                (fmul (cd22 p) (fsub (fdiv (imageH p) (Fin 2)) (crpix2 p)))),
        PixelScale := fmul (fsqrt (fadd (fmul (cd11 p) (cd11 p)) (fmul (cd21 p) (cd21 p)))) (Fin 3600),
        Rotation := rot\<rparr>)"
    by blast
  define t where "t = newResult\<lparr>WCSHeader := hdr,
        RA := fadd (crval1 p)
          (fadd (fmul (cd11 p) (fsub (fdiv (imageW p) (Fin 2)) (crpix1 p)))
                (fmul (cd12 p) (fsub (fdiv (imageH p) (Fin 2)) (crpix2 p)))),
        Dec := fadd (crval2 p)
          (fadd (fmul (cd21 p) (fsub (fdiv (imageW p) (Fin 2)) (crpix1 p)))
                (fmul (cd22 p) (fsub (fdiv (imageH p) (Fin 2)) (crpix2 p)))),
        PixelScale := fmul (fsqrt (fadd (fmul (cd11 p) (cd11 p)) (fmul (cd21 p) (cd21 p)))) (Fin 3600),
        Rotation := rot\<rparr>"
  have c: "computeFields L hdr = Some (fieldDimensions L t)"
    using pp u by (simp add: computeFields_def transform_def assms(4) t_def)
  have fields: "RA (fieldDimensions L t) = fadd (crval1 p)
          (fadd (fmul (cd11 p) (fsub (fdiv (imageW p) (Fin 2)) (crpix1 p)))
                (fmul (cd12 p) (fsub (fdiv (imageH p) (Fin 2)) (crpix2 p))))"
      "Dec (fieldDimensions L t) = fadd (crval2 p)
          (fadd (fmul (cd21 p) (fsub (fdiv (imageW p) (Fin 2)) (crpix1 p)))
                (fmul (cd22 p) (fsub (fdiv (imageH p) (Fin 2)) (crpix2 p))))"
      "PixelScale (fieldDimensions L t) =
          fmul (fsqrt (fadd (fmul (cd11 p) (cd11 p)) (fmul (cd21 p) (cd21 p)))) (Fin 3600)"
    by (simp_all add: fieldDimensions_keeps t_def)
  have ret: "ParseWCSFile L fs wcsPath =
          Some (if feq (RA (fieldDimensions L t)) (Fin 0) \<and> feq (Dec (fieldDimensions L t)) (Fin 0) \<and>
                   feq (PixelScale (fieldDimensions L t)) (Fin 0)
                then Inl (Errorf ''%w: no valid WCS fields found'' ErrWCSParseFailed)
                else Inr (fieldDimensions L t))"
    using assms(2) c unfolding assms(3) by (rule ParseWCSFile_computed)
  have "\<exists>res. computeFields L hdr = Some res \<and>
        RA res = fadd (crval1 p)
          (fadd (fmul (cd11 p) (fsub (fdiv (imageW p) (Fin 2)) (crpix1 p)))
                (fmul (cd12 p) (fsub (fdiv (imageH p) (Fin 2)) (crpix2 p)))) \<and>
        Dec res = fadd (crval2 p)
          (fadd (fmul (cd21 p) (fsub (fdiv (imageW p) (Fin 2)) (crpix1 p)))
                (fmul (cd22 p) (fsub (fdiv (imageH p) (Fin 2)) (crpix2 p)))) \<and>
        PixelScale res =
          fmul (fsqrt (fadd (fmul (cd11 p) (cd11 p)) (fmul (cd21 p) (cd21 p)))) (Fin 3600) \<and>
        ParseWCSFile L fs wcsPath =
          Some (if feq (RA res) (Fin 0) \<and> feq (Dec res) (Fin 0) \<and> feq (PixelScale res) (Fin 0)
                then Inl (Errorf ''%w: no valid WCS fields found'' ErrWCSParseFailed)
                else Inr res)"
    using c fields ret by blast
  with t show ?thesis by (simp add: assms(4) extractParams_fields)
qed

theorem primary_path_fields_witness:
  "\<exists>res. ParseWCSFile reflib fs_example ''primary.wcs'' = Some (Inr res) \<and>
     RA res = fadd (Fin 10) (fadd (fmul (Fin 1) (fsub (fdiv (Fin 100) (Fin 2)) (Fin 0)))
                                 (fmul (Fin 0) (fsub (fdiv (Fin 100) (Fin 2)) (Fin 0)))) \<and>
     RA res = Fin 60 \<and> Dec res = Fin 0 \<and> PixelScale res = Fin 3600"
proof -
  have a: "atan2_ok (Atan2 reflib)" by (simp add: reflib_def Atan2_ref_ok)
  have f: "fs_example ''primary.wcs'' = Inr file_primary" by (simp add: fs_example_def)
  have c: "\<exists>val v. readRecords file_primary Map.empty ''CRVAL1'' = Some val \<and>
      ParseFloat reflib val = Some v"
    by (simp add: header_primary lib_eval)
  have w: "fgt (imageW (extractParams reflib (readRecords file_primary Map.empty))) (Fin 0)"
    and h: "fgt (imageH (extractParams reflib (readRecords file_primary Map.empty))) (Fin 0)"
    by (simp_all add: params_primary float_eval)
  from primary_path_fields [where fs = fs_example and wcsPath = "''primary.wcs''",
      OF a f refl refl c w h]
  show ?thesis by (simp add: params_primary parse_primary fields_primary)
qed

theorem primary_path_fields_counterexample:
  "readRecords file_zero Map.empty ''CRVAL1'' = Some ''0'' \<and>
   ParseFloat reflib ''0'' = Some (Fin 0) \<and>
   fgt (imageW (extractParams reflib (readRecords file_zero Map.empty))) (Fin 0) \<and>
   fgt (imageH (extractParams reflib (readRecords file_zero Map.empty))) (Fin 0) \<and>
   fs_example ''zero.wcs'' = Inr file_zero \<and>
   ParseWCSFile reflib fs_example ''zero.wcs'' =
     Some (Inl (Errorf ''%w: no valid WCS fields found'' ErrWCSParseFailed))"
proof -
  have "readRecords file_zero Map.empty ''CRVAL1'' = Some ''0''"
    by (simp add: header_zero)
  moreover have "ParseFloat reflib ''0'' = Some (Fin 0)"
    by (simp add: lib_eval)
  moreover have "fgt (imageW (extractParams reflib (readRecords file_zero Map.empty))) (Fin 0)"
    "fgt (imageH (extractParams reflib (readRecords file_zero Map.empty))) (Fin 0)"
    by (simp_all add: params_zero float_eval)
  moreover have "fs_example ''zero.wcs'' = Inr file_zero"
    by (simp add: fs_example_def)
  ultimately show ?thesis using parse_zero by simp
qed

text \<open>
  C4, as amended. When \<open>CRVAL1\<close> is absent or does not parse, or an extracted image
  dimension is not above zero (as when neither \<open>IMAGEW\<close> nor \<open>NAXIS1\<close>, or neither
  \<open>IMAGEH\<close> nor \<open>NAXIS2\<close>, is present), the fallback path runs: \<open>RA\<close> is the extracted
  \<open>CRVAL1\<close> and \<open>Dec\<close> the extracted \<open>CRVAL2\<close>, with no offset, and \<^verbatim>\<open>ParseWCSFile\<close> returns
  the result unless \<open>RA\<close>, \<open>Dec\<close> and \<open>PixelScale\<close> are all zero. A missing \<open>CRVAL2\<close> alone
  does not select this path.
\<close>

theorem fallback_path_fields:
  assumes "fs wcsPath = Inr content"
    and "hdr = readRecords content Map.empty" and "p = extractParams L hdr"
    and "hdr ''CRVAL1'' = None \<or>
         hdr ''IMAGEW'' = None \<and> hdr ''NAXIS1'' = None \<or>
         hdr ''IMAGEH'' = None \<and> hdr ''NAXIS2'' = None \<or>
         getFloat L hdr ''CRVAL1'' = None \<or>
         \<not> fgt (imageW p) (Fin 0) \<or> \<not> fgt (imageH p) (Fin 0)"
  shows "transform L p (newResult\<lparr>WCSHeader := hdr\<rparr>) =
       Some (fallbackPath L p (newResult\<lparr>WCSHeader := hdr\<rparr>)) \<and>
     (\<exists>res. computeFields L hdr = Some res \<and>
        RA res = floatOrZero (getFloat L hdr ''CRVAL1'') \<and>
        Dec res = floatOrZero (getFloat L hdr ''CRVAL2'') \<and>
        ParseWCSFile L fs wcsPath =
          Some (if feq (RA res) (Fin 0) \<and> feq (Dec res) (Fin 0) \<and> feq (PixelScale res) (Fin 0)
                then Inl (Errorf ''%w: no valid WCS fields found'' ErrWCSParseFailed)
                else Inr res))"
proof -
  have "getFloat L hdr ''CRVAL1'' = None \<or>
         \<not> fgt (imageW p) (Fin 0) \<or> \<not> fgt (imageH p) (Fin 0)"
    using assms(4) missing_dimension [of hdr L]
    by (auto simp: assms(3) getFloat_def fgt_zero_not_zero)
  then have u: "\<not> usePrimary (extractParams L hdr)"
    unfolding usePrimary_extract assms(3) by simp
  then have t: "transform L p (newResult\<lparr>WCSHeader := hdr\<rparr>) =
       Some (fallbackPath L p (newResult\<lparr>WCSHeader := hdr\<rparr>))"
    by (simp add: transform_def assms(3))
  define res where "res = fieldDimensions L (fallbackPath L p (newResult\<lparr>WCSHeader := hdr\<rparr>))"
  have c: "computeFields L hdr = Some res"
    using computeFields_fallback [OF u] by (simp add: res_def assms(3))
  have "RA res = floatOrZero (getFloat L hdr ''CRVAL1'')"
    "Dec res = floatOrZero (getFloat L hdr ''CRVAL2'')"
    by (simp_all add: res_def fieldDimensions_keeps fallbackPath_keeps assms(3) extractParams_fields)
  moreover have "ParseWCSFile L fs wcsPath =
          Some (if feq (RA res) (Fin 0) \<and> feq (Dec res) (Fin 0) \<and> feq (PixelScale res) (Fin 0)
                then Inl (Errorf ''%w: no valid WCS fields found'' ErrWCSParseFailed)
                else Inr res)"
    using assms(1) c unfolding assms(2) by (rule ParseWCSFile_computed)
  ultimately show ?thesis using t c by blast
qed

theorem fallback_path_fields_witness:
  "readRecords file_fallback Map.empty ''CRVAL1'' = None \<and>
   (\<exists>res. ParseWCSFile reflib fs_example ''fallback.wcs'' = Some (Inr res) \<and>
      RA res = Fin 0 \<and> Dec res = Fin 10 \<and>
      floatOrZero (getFloat reflib (readRecords file_fallback Map.empty) ''CRVAL2'') = Fin 10)"
proof -
  have f: "fs_example ''fallback.wcs'' = Inr file_fallback" by (simp add: fs_example_def)
  have m: "readRecords file_fallback Map.empty ''CRVAL1'' = None" by (simp add: header_fallback)
  have v: "floatOrZero (getFloat reflib (readRecords file_fallback Map.empty) ''CRVAL2'') = Fin 10"
    by (simp add: header_fallback lib_eval)
  from fallback_path_fields [where fs = fs_example and wcsPath = "''fallback.wcs''" and L = reflib,
      OF f refl refl disjI1, OF m]
  show ?thesis using m v by (simp add: parse_fallback fields_fallback)
qed

theorem fallback_path_fields_counterexample:
  "readRecords file_primary Map.empty ''CRVAL2'' = None \<and>
   fs_example ''primary.wcs'' = Inr file_primary \<and>
   usePrimary (extractParams reflib (readRecords file_primary Map.empty)) \<and>
   crval1 (extractParams reflib (readRecords file_primary Map.empty)) = Fin 10 \<and>
   ParseWCSFile reflib fs_example ''primary.wcs'' = Some (Inr
     \<lparr>Solved = True, RA = Fin 60, Dec = Fin 0, PixelScale = Fin 3600, Rotation = Fin 180,
      FieldWidth = Fin 200, FieldHeight = Fin 400,
      WCSHeader = readRecords file_primary Map.empty, OutputFiles = [],
      SolveTime = Fin 0, RawOutput = []\<rparr>)"
proof -
  have "readRecords file_primary Map.empty ''CRVAL2'' = None" by (simp add: header_primary)
  moreover have "fs_example ''primary.wcs'' = Inr file_primary" by (simp add: fs_example_def)
  moreover have "usePrimary (extractParams reflib (readRecords file_primary Map.empty))"
    "crval1 (extractParams reflib (readRecords file_primary Map.empty)) = Fin 10"
    by (simp_all add: params_primary usePrimary_def float_eval)
  ultimately show ?thesis using parse_primary by simp
qed

text \<open>
  C5, as amended. On the primary path the rotation is
  \<open>180 - atan2 (cd12, cd11) * 180 / Pi\<close> put through the two loops that add and subtract
  360; when neither \<open>cd11\<close> nor \<open>cd12\<close> is a NaN it lies in the half-open interval from 0
  to 360. (A NaN among them makes the rotation a NaN, which lies in no interval.) On the
  fallback path the rotation is zero or the parsed value of \<open>CROTA2\<close>, as it is.
\<close>

theorem rotation_range:
  assumes "atan2_ok (Atan2 L)" and "p = extractParams L hdr"
  shows "(usePrimary p \<longrightarrow>
       (\<exists>r1 rot res.
          normalizeLow (fsub (Fin 180) (fdiv (fmul (Atan2 L (cd12 p) (cd11 p)) (Fin 180)) Pi64)) =
            Some r1 \<and>
          normalizeHigh r1 = Some rot \<and>
          computeFields L hdr = Some res \<and> Rotation res = rot \<and>
          (\<not> isNaN (cd11 p) \<and> \<not> isNaN (cd12 p) \<longrightarrow> fge rot (Fin 0) \<and> flt rot (Fin 360)))) \<and>
     (\<not> usePrimary p \<longrightarrow>
       (\<exists>res. computeFields L hdr = Some res \<and>
          (Rotation res = Fin 0 \<or>
           (\<exists>val. hdr ''CROTA2'' = Some val \<and> ParseFloat L val = Some (Rotation res)))))"
proof (intro conjI impI)
  assume u: "usePrimary p"
  from primaryPath_result [OF assms(1), of p "newResult\<lparr>WCSHeader := hdr\<rparr>"]
  obtain r1 rot t where
    n: "normalizeLow (fsub (Fin 180) (fdiv (fmul (Atan2 L (cd12 p) (cd11 p)) (Fin 180)) Pi64)) =
          Some r1"
      "normalizeHigh r1 = Some rot"
    and rg: "if isNaN (cd12 p) \<or> isNaN (cd11 p) then rot = NaN
         else isFinite rot \<and> 0 \<le> fval rot \<and> fval rot < 360"
    and pp: "primaryPath L p (newResult\<lparr>WCSHeader := hdr\<rparr>) = Some t"
    and rt: "Rotation t = rot"
    by force
  have c: "computeFields L hdr = Some (fieldDimensions L t)"
    using pp u by (simp add: computeFields_def transform_def assms(2))
  have "\<not> isNaN (cd11 p) \<and> \<not> isNaN (cd12 p) \<longrightarrow> fge rot (Fin 0) \<and> flt rot (Fin 360)"
    using rg by (auto simp: in_range_iff)
  then show "\<exists>r1 rot res.
          normalizeLow (fsub (Fin 180) (fdiv (fmul (Atan2 L (cd12 p) (cd11 p)) (Fin 180)) Pi64)) =
            Some r1 \<and>
          normalizeHigh r1 = Some rot \<and>
          computeFields L hdr = Some res \<and> Rotation res = rot \<and>
          (\<not> isNaN (cd11 p) \<and> \<not> isNaN (cd12 p) \<longrightarrow> fge rot (Fin 0) \<and> flt rot (Fin 360))"
    using n c rt by (auto simp: fieldDimensions_keeps)
next
  assume u: "\<not> usePrimary p"
  have c: "computeFields L hdr =
     Some (fieldDimensions L (fallbackPath L p (newResult\<lparr>WCSHeader := hdr\<rparr>)))"
    using computeFields_fallback [of L hdr] u by (simp add: assms(2))
  show "\<exists>res. computeFields L hdr = Some res \<and>
          (Rotation res = Fin 0 \<or>
           (\<exists>val. hdr ''CROTA2'' = Some val \<and> ParseFloat L val = Some (Rotation res)))"
    using c fallbackPath_rotation [of L p "newResult\<lparr>WCSHeader := hdr\<rparr>"]
    by (auto simp: fieldDimensions_keeps newResult_def)
qed

theorem rotation_range_witness:
  "(\<exists>res. computeFields reflib (readRecords file_primary Map.empty) = Some res \<and>
      Rotation res = Fin 180 \<and> fge (Rotation res) (Fin 0) \<and> flt (Rotation res) (Fin 360)) \<and>
   (\<exists>res. computeFields reflib (readRecords file_fallback Map.empty) = Some res \<and>
      Rotation res = Fin 400 \<and> ParseFloat reflib ''400'' = Some (Rotation res))"
proof -
  have a: "atan2_ok (Atan2 reflib)" by (simp add: reflib_def Atan2_ref_ok)
  have u: "usePrimary (extractParams reflib (readRecords file_primary Map.empty))"
    "\<not> isNaN (cd11 (extractParams reflib (readRecords file_primary Map.empty)))"
    "\<not> isNaN (cd12 (extractParams reflib (readRecords file_primary Map.empty)))"
    by (simp_all add: params_primary usePrimary_def float_eval)
  have v: "\<not> usePrimary (extractParams reflib (readRecords file_fallback Map.empty))"
    by (simp add: params_fallback usePrimary_def)
  have p4: "ParseFloat reflib ''400'' = Some (Fin 400)" by (simp add: lib_eval)
  from rotation_range [OF a refl, of "readRecords file_primary Map.empty"] u
    rotation_range [OF a refl, of "readRecords file_fallback Map.empty"] v p4
  show ?thesis by (auto simp: fields_primary fields_fallback)
qed

theorem rotation_range_counterexample:
  "usePrimary (extractParams reflib (readRecords file_nan Map.empty)) \<and>
   fs_example ''nan.wcs'' = Inr file_nan \<and>
   ParseWCSFile reflib fs_example ''nan.wcs'' = Some (Inr
     \<lparr>Solved = True, RA = NaN, Dec = Fin 0, PixelScale = Fin 0, Rotation = NaN,
      FieldWidth = Fin 0, FieldHeight = Fin 0,
      WCSHeader = readRecords file_nan Map.empty, OutputFiles = [],
      SolveTime = Fin 0, RawOutput = []\<rparr>) \<and>
   \<not> (fge NaN (Fin 0) \<and> flt NaN (Fin 360))"
proof -
  have "usePrimary (extractParams reflib (readRecords file_nan Map.empty))"
    by (simp add: params_nan usePrimary_def float_eval)
  moreover have "fs_example ''nan.wcs'' = Inr file_nan" by (simp add: fs_example_def)
  moreover have "\<not> (fge NaN (Fin 0) \<and> flt NaN (Fin 360))" by (simp add: flt_def)
  ultimately show ?thesis using parse_nan by simp
qed

text \<open>
  C7. With a pixel scale above zero, and \<open>IMAGEW\<close> and \<open>NAXIS1\<close> both present and parsed,
  the field width is \<open>NAXIS1 * PixelScale / 3600\<close>: the later assignment wins. The field
  height is the same with \<open>IMAGEH\<close> and \<open>NAXIS2\<close>. With a pixel scale not above zero both
  stay zero. A result with a pixel scale above zero passes the final check and is returned.
\<close>

theorem field_dimensions_last_write:
  assumes "atan2_ok (Atan2 L)" and "fs wcsPath = Inr content"
    and "hdr = readRecords content Map.empty"
  shows "\<exists>res. computeFields L hdr = Some res \<and>
     (fgt (PixelScale res) (Fin 0) \<longrightarrow>
        ParseWCSFile L fs wcsPath = Some (Inr res) \<and>
        (\<forall>a wa b wb. hdr ''IMAGEW'' = Some a \<and> ParseFloat L a = Some wa \<and>
            hdr ''NAXIS1'' = Some b \<and> ParseFloat L b = Some wb \<longrightarrow>
            FieldWidth res = fdiv (fmul wb (PixelScale res)) (Fin 3600)) \<and>
        (\<forall>a ha b hb. hdr ''IMAGEH'' = Some a \<and> ParseFloat L a = Some ha \<and>
            hdr ''NAXIS2'' = Some b \<and> ParseFloat L b = Some hb \<longrightarrow>
            FieldHeight res = fdiv (fmul hb (PixelScale res)) (Fin 3600))) \<and>
     (\<not> fgt (PixelScale res) (Fin 0) \<longrightarrow> FieldWidth res = Fin 0 \<and> FieldHeight res = Fin 0)"
proof -
  from computeFields_total [OF assms(1)] obtain res where
    c: "computeFields L hdr = Some res" by blast
  from c obtain t where r: "res = fieldDimensions L t" and h: "WCSHeader t = hdr"
    and z: "FieldWidth t = Fin 0" "FieldHeight t = Fin 0"
    by (rule computeFields_SomeD)
  have ps: "PixelScale res = PixelScale t" by (simp add: r fieldDimensions_keeps)
  have ret: "fgt (PixelScale res) (Fin 0) \<longrightarrow> ParseWCSFile L fs wcsPath = Some (Inr res)"
    using ParseWCSFile_computed [where fs = fs and wcsPath = wcsPath, OF assms(2) c [unfolded assms(3)]]
    by (auto simp: fgt_def flt_def feq_def isFinite_def)
  have w: "fgt (PixelScale res) (Fin 0) \<longrightarrow>
        (\<forall>a wa b wb. hdr ''IMAGEW'' = Some a \<and> ParseFloat L a = Some wa \<and>
            hdr ''NAXIS1'' = Some b \<and> ParseFloat L b = Some wb \<longrightarrow>
            FieldWidth res = fdiv (fmul wb (PixelScale res)) (Fin 3600))"
    unfolding ps by (auto simp: r fieldDimensions_width h getFloat_def fieldDimensions_keeps)
  have hh: "fgt (PixelScale res) (Fin 0) \<longrightarrow>
        (\<forall>a ha b hb. hdr ''IMAGEH'' = Some a \<and> ParseFloat L a = Some ha \<and>
            hdr ''NAXIS2'' = Some b \<and> ParseFloat L b = Some hb \<longrightarrow>
            FieldHeight res = fdiv (fmul hb (PixelScale res)) (Fin 3600))"
    unfolding ps by (auto simp: r fieldDimensions_height h getFloat_def fieldDimensions_keeps)
  have zz: "\<not> fgt (PixelScale res) (Fin 0) \<longrightarrow> FieldWidth res = Fin 0 \<and> FieldHeight res = Fin 0"
    unfolding ps by (simp add: r fieldDimensions_width fieldDimensions_height z)
  from c ret w hh zz show ?thesis by blast
qed

theorem field_dimensions_last_write_witness:
  "(\<exists>res. ParseWCSFile reflib fs_example ''primary.wcs'' = Some (Inr res) \<and>
      readRecords file_primary Map.empty ''IMAGEW'' = Some ''100'' \<and>
      readRecords file_primary Map.empty ''NAXIS1'' = Some ''200'' \<and>
      FieldWidth res = fdiv (fmul (Fin 200) (PixelScale res)) (Fin 3600) \<and>
      FieldWidth res = Fin 200 \<and> FieldHeight res = Fin 400) \<and>
   (\<exists>res. computeFields reflib (readRecords file_zero Map.empty) = Some res \<and>
      PixelScale res = Fin 0 \<and> FieldWidth res = Fin 0 \<and> FieldHeight res = Fin 0)"
proof -
  have a: "atan2_ok (Atan2 reflib)" by (simp add: reflib_def Atan2_ref_ok)
  have f: "fs_example ''primary.wcs'' = Inr file_primary"
    and g: "fs_example ''zero.wcs'' = Inr file_zero" by (simp_all add: fs_example_def)
  have k: "readRecords file_primary Map.empty ''IMAGEW'' = Some ''100''"
    "readRecords file_primary Map.empty ''NAXIS1'' = Some ''200''"
    "ParseFloat reflib ''100'' = Some (Fin 100)" "ParseFloat reflib ''200'' = Some (Fin 200)"
    by (simp_all add: header_primary lib_eval)
  have e: "fgt (Fin 3600) (Fin 0)" "\<not> fgt (Fin 0) (Fin 0)"
    "fdiv (fmul (Fin 200) (Fin 3600)) (Fin 3600) = Fin 200"
    by (simp_all add: float_eval)
  from field_dimensions_last_write [where fs = fs_example and wcsPath = "''primary.wcs''",
      OF a f refl]
    field_dimensions_last_write [where fs = fs_example and wcsPath = "''zero.wcs''",
      OF a g refl]
  show ?thesis using k e by (auto simp: fields_primary fields_zero parse_primary)
qed

text \<open>
  C6. The header map that the reading loop builds from any bytes is the one the
  specification describes: the bytes are cut into consecutive full records of 80 bytes,
  up to the first short one; a record that begins with \<open>END\<close> or has no \<open>=\<close> is skipped;
  of the others the key is the trimmed text before the first \<open>=\<close>, and the value is the
  text after it, cut at the first \<open>/\<close>, trimmed, stripped of surrounding single quotes
  and trimmed again; and of two records with one key the later one decides the value.
\<close>

theorem header_map_as_specified:
  "readRecords bytes Map.empty = spec_HeaderMap bytes"
  by (simp add: readRecords_spec spec_HeaderMap_def)

theorem header_map_as_specified_witness:
  "spec_HeaderMap file_primary ''CTYPE1'' = Some ''RA---TAN'' \<and>
   spec_HeaderMap (rec_CRVAL1_0 @ rec_CRVAL1_10 @ rec_END @ ''END'') ''CRVAL1'' = Some ''10''"
proof -
  have "readRecords file_primary Map.empty ''CTYPE1'' = Some ''RA---TAN''"
    by (simp add: header_primary)
  moreover have "readRecords (rec_CRVAL1_0 @ rec_CRVAL1_10 @ rec_END @ ''END'') Map.empty ''CRVAL1'' =
      Some ''10''"
    by (simp add: readRecords_record rec_lengths rec_parse readRecords.simps [of "''END''"])
  ultimately show ?thesis
    by (simp only: header_map_as_specified)
qed

end
